theory Spec2Isabelle
  imports Complex_Main "HOL-Library.AList"
begin

section \<open>Strings and input cleaning (tokenizer.ts)\<close>

text \<open>
  JavaScript strings are modelled as Isabelle strings: lists of code units below 256.
  Among those code units, \<open>String.prototype.trim\<close> and the regular-expression class
  \<open>\s\<close> treat exactly tab, line feed, vertical tab, form feed, carriage return, space
  and no-break space as white space.
\<close>

definition isWhiteSpace :: "char \<Rightarrow> bool" where
  "isWhiteSpace c \<longleftrightarrow> c \<in> {CHR 0x09, CHR 0x0A, CHR 0x0B, CHR 0x0C, CHR 0x0D, CHR 0x20, CHR 0xA0}"

definition isPunct :: "char \<Rightarrow> bool" where
  "isPunct c \<longleftrightarrow> c = CHR ''.'' \<or> c = CHR '',''"

definition trim :: "string \<Rightarrow> string" where
  "trim s = rev (dropWhile isWhiteSpace (rev (dropWhile isWhiteSpace s)))"

text \<open>The fast-path scan of \<open>cleanInput\<close>: the flag is \<open>prevWasSpace\<close>.\<close>

fun needsCleaning :: "bool \<Rightarrow> string \<Rightarrow> bool" where
  "needsCleaning prevWasSpace [] = False"
| "needsCleaning prevWasSpace (c # cs) =
     (if c = CHR 0x20 then (if prevWasSpace then True else needsCleaning True cs)
      else if isPunct c \<and> (cs = [] \<or> hd cs = CHR 0x20) then True
      else needsCleaning False cs)"

text \<open>\<open>replace(/\s+/g, ' ')\<close>: every maximal run of white space becomes one space.\<close>

function collapseSpaces :: "string \<Rightarrow> string" where
  "collapseSpaces [] = []"
| "collapseSpaces (c # cs) =
     (if isWhiteSpace c then CHR 0x20 # collapseSpaces (dropWhile isWhiteSpace cs)
      else c # collapseSpaces cs)"
  by pat_completeness auto
termination
  by (relation "measure length") (auto simp: le_imp_less_Suc length_dropWhile_le)

text \<open>\<open>replace(/[.,](?=\s|$)/g, '')\<close>: the lookahead reads the string being scanned.\<close>

fun stripPunct :: "string \<Rightarrow> string" where
  "stripPunct [] = []"
| "stripPunct (c # cs) =
     (if isPunct c \<and> (cs = [] \<or> isWhiteSpace (hd cs)) then stripPunct cs
      else c # stripPunct cs)"

definition cleanInput :: "string \<Rightarrow> string" where
  "cleanInput input =
     (if input = [] then []
      else let trimmed = trim input in
        if \<not> needsCleaning False trimmed then trimmed
        else stripPunct (collapseSpaces trimmed))"


text \<open>
  \<open>toLowerCase\<close> on code units below 256: the ASCII capitals and the Latin-1 capitals
  (all of 0xC0 to 0xDE but the multiplication sign 0xD7) move up by 32.
\<close>

definition toLowerChar :: "char \<Rightarrow> char" where
  "toLowerChar c =
     (let n = (of_char c :: nat)
      in if (65 \<le> n \<and> n \<le> 90) \<or> (192 \<le> n \<and> n \<le> 222 \<and> n \<noteq> 215)
         then char_of (n + 32) else c)"

definition toLowerCase :: "string \<Rightarrow> string" where
  "toLowerCase s = map toLowerChar s"

definition normalizeWord :: "string \<Rightarrow> bool \<Rightarrow> string" where
  "normalizeWord word caseSensitive =
     (let normalized = trim word
      in if caseSensitive then normalized else toLowerCase normalized)"

text \<open>\<open>s.includes(' ')\<close> and \<open>s.split(' ')\<close>.\<close>

definition includesSpace :: "string \<Rightarrow> bool" where
  "includesSpace s \<longleftrightarrow> CHR 0x20 \<in> set s"

fun splitOn :: "char \<Rightarrow> string \<Rightarrow> string list" where
  "splitOn d [] = [[]]"
| "splitOn d (c # cs) =
     (if c = d then [] # splitOn d cs
      else (case splitOn d cs of [] \<Rightarrow> [[c]] | p # ps \<Rightarrow> (c # p) # ps))"

text \<open>\<open>s.split(/\s+/).length\<close>: one more than the number of white-space runs.\<close>

fun countRuns :: "bool \<Rightarrow> string \<Rightarrow> nat" where
  "countRuns inRun [] = 0"
| "countRuns inRun (c # cs) =
     (if isWhiteSpace c then (if inRun then 0 else 1) + countRuns True cs
      else countRuns False cs)"

definition wordCount :: "string \<Rightarrow> nat" where
  "wordCount s = Suc (countRuns False s)"

section \<open>The reverse word map (a JavaScript Map: insertion order, one entry per key)\<close>

type_synonym WordNumberMap = "(string \<times> int) list"

definition mapGet :: "WordNumberMap \<Rightarrow> string \<Rightarrow> int option" where
  "mapGet m k = map_of m k"

definition mapHas :: "WordNumberMap \<Rightarrow> string \<Rightarrow> bool" where
  "mapHas m k \<longleftrightarrow> map_of m k \<noteq> None"

definition mapSet :: "string \<Rightarrow> int \<Rightarrow> WordNumberMap \<Rightarrow> WordNumberMap" where
  "mapSet k v m = AList.update k v m"

definition mapKeys :: "WordNumberMap \<Rightarrow> string list" where
  "mapKeys m = map fst m"

section \<open>The grammar description (types.ts)\<close>

datatype WordValue = Single string | Pair string string

datatype NumberValue = Num int | BigInt int

record NumberWordMap =
  nwNumber :: NumberValue
  nwValue :: WordValue
  singularValue :: "string option"

record PluralFormVariants =
  dual :: "string option"
  paucal :: "string option"
  plural :: "string option"

record UnitNames =
  unitName :: string
  unitPlural :: string
  unitSingular :: "string option"

record CurrencyOptions =
  currencyName :: string
  currencyPlural :: string
  currencySingular :: "string option"
  fractionalUnit :: UnitNames

record LocaleTexts =
  textAnd :: string
  textMinus :: string
  textOnly :: string
  textPoint :: string

text \<open>\<open>pluralForms\<close> is listed in the order of \<open>Object.entries\<close>.\<close>

record OriginalLocaleConfig =
  currency :: CurrencyOptions
  texts :: LocaleTexts
  numberWordsMapping :: "NumberWordMap list"
  exactWordsMapping :: "NumberWordMap list option"
  ordinalWordsMapping :: "NumberWordMap list option"
  ordinalExactWordsMapping :: "NumberWordMap list option"
  ordinalSuffixText :: "string option"
  splitWordText :: "string option"
  pluralMark :: "string option"
  pluralWords :: "string list option"
  pluralForms :: "(int \<times> PluralFormVariants) list option"
  trimWords :: "bool option"

section \<open>The compiled grammar (types.ts, ParserLocaleConfig)\<close>

record ParserTexts =
  textsAnd :: "string list"
  textsMinus :: "string list"
  textsPoint :: "string list"
  textsOnly :: "string list"

record CurrencyWords =
  mainUnit :: "string list"
  fractionalUnitWords :: "string list"

record ParserLocaleConfig =
  wordToNumber :: WordNumberMap
  scaleWords :: "int set"
  impliedDualWords :: "string set"
  oneWords :: "string set"
  usesPostfixOne :: bool
  parserTexts :: ParserTexts
  currencyWords :: CurrencyWords
  caseSensitive :: bool
  trimMode :: bool
  splitWord :: "string option"
  ordinalWordToNumber :: WordNumberMap
  ordinalSuffix :: "string option"
  sortedPhrases :: "string list"
  multiWordPhrases :: "string list"
  specialWords :: "string list"
  sortedConcatenatedWords :: "string list"
  andWordsSet :: "string set"
  mainUnitSet :: "string set"
  fractionalUnitSet :: "string set"
  mainUnitMultiWord :: "string list list"
  fractionalUnitMultiWord :: "string list list"

section \<open>The grammar compiler (localeAdapter.ts)\<close>

definition SCALE_VALUES :: "int set" where
  "SCALE_VALUES =
     {100, 1000, 10000, 100000, 1000000, 10000000, 100000000, 1000000000,
      10000000000, 100000000000, 1000000000000, 10000000000000,
      100000000000000, 1000000000000000, 10000000000000000}"

definition extractWordValue :: "WordValue \<Rightarrow> string list" where
  "extractWordValue v =
     (case v of Single w \<Rightarrow> [w] | Pair a b \<Rightarrow> filter (\<lambda>w. w \<noteq> []) [a, b])"

definition MAX_SAFE_INTEGER :: int where
  "MAX_SAFE_INTEGER = 9007199254740991"

definition toNumber :: "NumberValue \<Rightarrow> int" where
  "toNumber v =
     (case v of Num n \<Rightarrow> n
      | BigInt n \<Rightarrow> if n > MAX_SAFE_INTEGER then MAX_SAFE_INTEGER else n)"

text \<open>A string is truthy when it is present and not empty.\<close>

definition normOpt :: "bool \<Rightarrow> string option \<Rightarrow> string option" where
  "normOpt cs w =
     (case w of None \<Rightarrow> None
      | Some x \<Rightarrow> if x = [] then None else Some (normalizeWord x cs))"

definition setIfTruthy :: "string option \<Rightarrow> int \<Rightarrow> WordNumberMap \<Rightarrow> WordNumberMap" where
  "setIfTruthy w n m =
     (case w of None \<Rightarrow> m | Some x \<Rightarrow> if x = [] then m else mapSet x n m)"

definition addNumberWord :: "bool \<Rightarrow> NumberWordMap \<Rightarrow> WordNumberMap \<Rightarrow> WordNumberMap" where
  "addNumberWord cs mapping m =
     (let m1 = fold (\<lambda>word. mapSet (normalizeWord word cs) (toNumber (nwNumber mapping)))
                 (extractWordValue (nwValue mapping)) m
      in case singularValue mapping of
           None \<Rightarrow> m1
         | Some sv \<Rightarrow>
             if sv = [] then m1
             else mapSet (normalizeWord sv cs) (toNumber (nwNumber mapping)) m1)"

definition addExactWord :: "bool \<Rightarrow> NumberWordMap \<Rightarrow> WordNumberMap \<Rightarrow> WordNumberMap" where
  "addExactWord cs mapping m =
     fold (\<lambda>word acc. if includesSpace word then acc
                       else mapSet (normalizeWord word cs) (toNumber (nwNumber mapping)) acc)
       (extractWordValue (nwValue mapping)) m"

definition addPluralWord :: "bool \<Rightarrow> string \<Rightarrow> string \<Rightarrow> WordNumberMap \<Rightarrow> WordNumberMap" where
  "addPluralWord cs mark word m =
     (case mapGet m (normalizeWord word cs) of
        None \<Rightarrow> m
      | Some baseNumber \<Rightarrow> mapSet (normalizeWord (word @ mark) cs) baseNumber m)"

definition dualIsDistinct :: "bool \<Rightarrow> PluralFormVariants \<Rightarrow> bool" where
  "dualIsDistinct cs forms =
     (let dualNorm = normOpt cs (dual forms);
          paucalNorm = normOpt cs (paucal forms);
          pluralNorm = normOpt cs (plural forms)
      in dualNorm \<noteq> None \<and> dualNorm \<noteq> Some [] \<and> dualNorm \<noteq> paucalNorm \<and> dualNorm \<noteq> pluralNorm)"

definition addPluralForm ::
  "bool \<Rightarrow> int \<times> PluralFormVariants \<Rightarrow> WordNumberMap \<Rightarrow> WordNumberMap" where
  "addPluralForm cs entry m =
     (let number = fst entry; forms = snd entry;
          m1 = setIfTruthy (normOpt cs (dual forms))
                 (if dualIsDistinct cs forms then number * 2 else number) m;
          m2 = setIfTruthy (normOpt cs (paucal forms)) number m1
      in setIfTruthy (normOpt cs (plural forms)) number m2)"

definition buildWordToNumberMap :: "OriginalLocaleConfig \<Rightarrow> bool \<Rightarrow> WordNumberMap" where
  "buildWordToNumberMap config cs =
     (let m1 = fold (addNumberWord cs) (numberWordsMapping config) [];
          m2 = (case exactWordsMapping config of
                  None \<Rightarrow> m1 | Some ex \<Rightarrow> fold (addExactWord cs) ex m1);
          m3 = (case (pluralMark config, pluralWords config) of
                  (Some mark, Some ws) \<Rightarrow>
                    if mark = [] then m2 else fold (addPluralWord cs mark) ws m2
                | _ \<Rightarrow> m2)
      in case pluralForms config of
           None \<Rightarrow> m3 | Some pf \<Rightarrow> fold (addPluralForm cs) pf m3)"

definition isScaleValue :: "int \<Rightarrow> bool" where
  "isScaleValue n \<longleftrightarrow>
     n \<in> SCALE_VALUES \<or> (n \<ge> 100 \<and> even n \<and> n div 2 \<in> SCALE_VALUES)"

definition extractScaleWords :: "WordNumberMap \<Rightarrow> int set" where
  "extractScaleWords m =
     fold (\<lambda>entry acc.
              let number = snd entry;
                  acc1 = (if number \<in> SCALE_VALUES then insert number acc else acc)
              in if number \<ge> 100 \<and> even number \<and> number div 2 \<in> SCALE_VALUES
                 then insert number acc1 else acc1)
       m {}"

definition impliesDual :: "bool \<Rightarrow> PluralFormVariants \<Rightarrow> bool" where
  "impliesDual cs forms =
     (let dualNorm = normOpt cs (dual forms);
          paucalNorm = normOpt cs (paucal forms);
          pluralNorm = normOpt cs (plural forms)
      in dualNorm \<noteq> None \<and> dualNorm \<noteq> Some [] \<and> (dualNorm = paucalNorm \<or> dualNorm = pluralNorm))"

definition extractImpliedDualWords :: "OriginalLocaleConfig \<Rightarrow> bool \<Rightarrow> string set" where
  "extractImpliedDualWords config cs =
     (case pluralForms config of
        None \<Rightarrow> {}
      | Some pf \<Rightarrow>
          fold (\<lambda>entry acc.
                  if impliesDual cs (snd entry)
                  then (case normOpt cs (dual (snd entry)) of
                          Some d \<Rightarrow> insert d acc | None \<Rightarrow> acc)
                  else acc)
            pf {})"

definition extractOneWords :: "WordNumberMap \<Rightarrow> string set" where
  "extractOneWords m =
     fold (\<lambda>entry acc.
             if snd entry = 1 \<and> \<not> includesSpace (fst entry) then insert (fst entry) acc else acc)
       m {}"

definition isPostfixOneEntry :: "int set \<Rightarrow> string set \<Rightarrow> bool \<Rightarrow> NumberWordMap \<Rightarrow> bool" where
  "isPostfixOneEntry sw ow cs mapping =
     (case nwValue mapping of
        Pair a b \<Rightarrow> False
      | Single v \<Rightarrow>
          includesSpace v \<and>
          (let parts = splitOn (CHR 0x20) v
           in length parts = 2 \<and> normalizeWord (parts ! 1) cs \<in> ow
              \<and> toNumber (nwNumber mapping) \<in> sw))"

definition detectUsesPostfixOne ::
  "OriginalLocaleConfig \<Rightarrow> int set \<Rightarrow> string set \<Rightarrow> bool \<Rightarrow> bool" where
  "detectUsesPostfixOne config sw ow cs =
     (case exactWordsMapping config of
        None \<Rightarrow> False
      | Some ex \<Rightarrow> list_ex (isPostfixOneEntry sw ow cs) ex)"

definition pushIfTruthy :: "bool \<Rightarrow> string \<Rightarrow> string list \<Rightarrow> string list" where
  "pushIfTruthy cs w acc = (if w = [] then acc else acc @ [normalizeWord w cs])"

definition pushOptIfTruthy :: "bool \<Rightarrow> string option \<Rightarrow> string list \<Rightarrow> string list" where
  "pushOptIfTruthy cs w acc = (case w of None \<Rightarrow> acc | Some x \<Rightarrow> pushIfTruthy cs x acc)"

definition buildCurrencyWords :: "OriginalLocaleConfig \<Rightarrow> bool \<Rightarrow> CurrencyWords" where
  "buildCurrencyWords config cs =
     (let cur = currency config; fractional = fractionalUnit cur
      in \<lparr> mainUnit =
             pushOptIfTruthy cs (currencySingular cur)
               (pushIfTruthy cs (currencyPlural cur) (pushIfTruthy cs (currencyName cur) [])),
           fractionalUnitWords =
             pushOptIfTruthy cs (unitSingular fractional)
               (pushIfTruthy cs (unitPlural fractional) (pushIfTruthy cs (unitName fractional) [])) \<rparr>)"

definition addOrdinalWord :: "bool \<Rightarrow> NumberWordMap \<Rightarrow> WordNumberMap \<Rightarrow> WordNumberMap" where
  "addOrdinalWord cs mapping m =
     fold (\<lambda>word. mapSet (normalizeWord word cs) (toNumber (nwNumber mapping)))
       (extractWordValue (nwValue mapping)) m"

definition buildOrdinalWordToNumberMap :: "OriginalLocaleConfig \<Rightarrow> bool \<Rightarrow> WordNumberMap" where
  "buildOrdinalWordToNumberMap config cs =
     (let m1 = (case ordinalWordsMapping config of
                  None \<Rightarrow> [] | Some ws \<Rightarrow> fold (addOrdinalWord cs) ws [])
      in case ordinalExactWordsMapping config of
           None \<Rightarrow> m1 | Some ws \<Rightarrow> fold (addOrdinalWord cs) ws m1)"

text \<open>
  \<open>Array.prototype.sort\<close> is stable; the comparator orders by word count, then by
  length, both descending. Two stable passes, the minor key first, give that order.
\<close>

definition sortByLengthDesc :: "string list \<Rightarrow> string list" where
  "sortByLengthDesc ws = sort_key (\<lambda>w. - int (length w)) ws"

definition sortPhrases :: "string list \<Rightarrow> string list" where
  "sortPhrases ws = sort_key (\<lambda>w. - int (wordCount w)) (sortByLengthDesc ws)"

definition markerList :: "bool \<Rightarrow> string \<Rightarrow> string list" where
  "markerList cs w = (if w = [] then [] else [normalizeWord w cs])"

definition buildParserLocaleConfig :: "OriginalLocaleConfig \<Rightarrow> bool \<Rightarrow> ParserLocaleConfig" where
  "buildParserLocaleConfig config cs =
     (let w2n = buildWordToNumberMap config cs;
          sw = extractScaleWords w2n;
          ow = extractOneWords w2n;
          cw = buildCurrencyWords config cs;
          o2n = buildOrdinalWordToNumberMap config cs;
          tx = \<lparr> textsAnd = markerList cs (textAnd (texts config)),
                 textsMinus = markerList cs (textMinus (texts config)),
                 textsPoint = markerList cs (textPoint (texts config)),
                 textsOnly = markerList cs (textOnly (texts config)) \<rparr>;
          sorted = sortPhrases (mapKeys w2n);
          special = filter (\<lambda>w. w \<noteq> [])
                      (textsMinus tx @ textsPoint tx @ textsAnd tx @ textsOnly tx
                       @ mainUnit cw @ fractionalUnitWords cw @ mapKeys o2n)
      in \<lparr> wordToNumber = w2n,
           scaleWords = sw,
           impliedDualWords = extractImpliedDualWords config cs,
           oneWords = ow,
           usesPostfixOne = detectUsesPostfixOne config sw ow cs,
           parserTexts = tx,
           currencyWords = cw,
           caseSensitive = cs,
           trimMode = (case trimWords config of None \<Rightarrow> False | Some b \<Rightarrow> b),
           splitWord = normOpt cs (splitWordText config),
           ordinalWordToNumber = o2n,
           ordinalSuffix = normOpt cs (ordinalSuffixText config),
           sortedPhrases = sorted,
           multiWordPhrases = filter includesSpace sorted,
           specialWords = special,
           sortedConcatenatedWords = sortByLengthDesc (mapKeys w2n @ special),
           andWordsSet = set (textsAnd tx),
           mainUnitSet = set (filter (\<lambda>u. \<not> includesSpace u) (mainUnit cw)),
           fractionalUnitSet = set (filter (\<lambda>u. \<not> includesSpace u) (fractionalUnitWords cw)),
           mainUnitMultiWord = map (splitOn (CHR 0x20)) (filter includesSpace (mainUnit cw)),
           fractionalUnitMultiWord =
             map (splitOn (CHR 0x20)) (filter includesSpace (fractionalUnitWords cw)) \<rparr>)"


section \<open>The tokenizer (tokenizer.ts)\<close>

text \<open>The tokenizer and \<open>isValidInput\<close> separate words at space, tab, line feed and
  carriage return only.\<close>

definition isSep :: "char \<Rightarrow> bool" where
  "isSep c \<longleftrightarrow> c \<in> {CHR 0x20, CHR 0x09, CHR 0x0A, CHR 0x0D}"

definition phraseMatches :: "string \<Rightarrow> string \<Rightarrow> bool" where
  "phraseMatches rest phrase \<longleftrightarrow>
     length phrase \<le> length rest \<and> take (length phrase) rest = phrase \<and>
     (length phrase \<ge> length rest \<or> isSep (rest ! length phrase))"

definition wordTokens :: "WordNumberMap \<Rightarrow> string \<Rightarrow> string list" where
  "wordTokens wordMap word =
     (if mapHas wordMap word then [word]
      else if CHR ''-'' \<in> set word then filter (\<lambda>part. part \<noteq> []) (splitOn (CHR ''-'') word)
      else if word \<noteq> [] then [word] else [])"

function tokenizeWithPhrases :: "WordNumberMap \<Rightarrow> string list \<Rightarrow> string \<Rightarrow> string list" where
  "tokenizeWithPhrases wordMap phrases text =
     (if dropWhile isSep text = [] then []
      else case find (phraseMatches (dropWhile isSep text)) phrases of
             Some phrase \<Rightarrow>
               phrase # tokenizeWithPhrases wordMap phrases
                          (drop (length phrase) (dropWhile isSep text))
           | None \<Rightarrow>
               wordTokens wordMap (takeWhile (\<lambda>c. \<not> isSep c) (dropWhile isSep text))
               @ tokenizeWithPhrases wordMap phrases
                   (dropWhile (\<lambda>c. \<not> isSep c) (dropWhile isSep text)))"
  by pat_completeness auto
termination
proof (relation "measure (\<lambda>(wordMap, phrases, text). length text)", goal_cases)
  case 1
  show ?case by simp
next
  case (2 wordMap phrases inp)
  let ?rest = "dropWhile isSep inp"
  have "\<not> isSep (hd ?rest)" using 2(1) by (rule hd_dropWhile)
  with 2(1) have "length (dropWhile (\<lambda>c. \<not> isSep c) ?rest) < length ?rest"
    by (cases "dropWhile isSep inp") (auto simp: le_imp_less_Suc length_dropWhile_le)
  also have "\<dots> \<le> length inp" by (rule length_dropWhile_le)
  finally show ?case by simp
next
  case (3 wordMap phrases inp phrase)
  let ?rest = "dropWhile isSep inp"
  from 3(2) have m: "phraseMatches ?rest phrase" by (auto simp: find_Some_iff)
  have "\<not> isSep (hd ?rest)" using 3(1) by (rule hd_dropWhile)
  with 3(1) have "\<not> isSep (?rest ! 0)" by (simp add: hd_conv_nth)
  with m 3(1) have "phrase \<noteq> []" by (auto simp: phraseMatches_def)
  with 3(1) have "length (drop (length phrase) ?rest) < length ?rest" by simp
  also have "\<dots> \<le> length inp" by (rule length_dropWhile_le)
  finally show ?case by simp
qed

definition tokenize :: "string \<Rightarrow> bool \<Rightarrow> WordNumberMap \<Rightarrow> string list \<Rightarrow> string list" where
  "tokenize input cs wordMap phrases =
     (if input = [] then []
      else tokenizeWithPhrases wordMap phrases
             (if cs then trim input else toLowerCase (trim input)))"

definition startsWith :: "string \<Rightarrow> string \<Rightarrow> bool" where
  "startsWith s w \<longleftrightarrow> take (length w) s = w"

text \<open>
  The loop of \<open>tokenizeConcatenated\<close>. A matching empty word leaves \<open>remaining\<close>
  as it is, so the source loops forever there: that outcome is \<open>None\<close>.
\<close>

function concatenatedLoop :: "string list \<Rightarrow> string \<Rightarrow> string list option" where
  "concatenatedLoop ws remaining =
     (if remaining = [] then Some []
      else case find (startsWith remaining) ws of
             Some word \<Rightarrow>
               if word = [] then None
               else map_option ((#) word) (concatenatedLoop ws (drop (length word) remaining))
           | None \<Rightarrow> concatenatedLoop ws (tl remaining))"
  by pat_completeness auto
termination
  by (relation "measure (\<lambda>(ws, remaining). length remaining)") auto

definition tokenizeConcatenated :: "string \<Rightarrow> bool \<Rightarrow> string list \<Rightarrow> string list option" where
  "tokenizeConcatenated input cs sortedWords =
     (if input = [] then Some []
      else concatenatedLoop sortedWords (if cs then trim input else toLowerCase (trim input)))"

definition getTokens :: "ParserLocaleConfig \<Rightarrow> string \<Rightarrow> string list option" where
  "getTokens config ws =
     (let cleaned = cleanInput ws
      in if trimMode config
         then tokenizeConcatenated cleaned (caseSensitive config) (sortedConcatenatedWords config)
         else Some (tokenize cleaned (caseSensitive config) (wordToNumber config)
                      (multiWordPhrases config)))"


section \<open>The numeral parser (ToNumbersCore.ts): integers\<close>

text \<open>
  Numbers are exact: integers for integer phrases, rationals once a fraction is formed.
  The word maps hold integers, as the grammar tables do.
\<close>

type_synonym ScalePosition = "nat \<times> int \<times> string"

definition isScaleWord :: "ParserLocaleConfig \<Rightarrow> string \<Rightarrow> bool" where
  "isScaleWord config token =
     (case mapGet (wordToNumber config) token of
        None \<Rightarrow> False | Some num \<Rightarrow> num \<in> scaleWords config)"

definition addWord :: "ParserLocaleConfig \<Rightarrow> string \<Rightarrow> int \<Rightarrow> int" where
  "addWord config token acc =
     (case mapGet (wordToNumber config) token of None \<Rightarrow> acc | Some num \<Rightarrow> acc + num)"

definition sumRange :: "ParserLocaleConfig \<Rightarrow> string list \<Rightarrow> nat \<Rightarrow> nat \<Rightarrow> int" where
  "sumRange config tokens start stop = fold (\<lambda>i. addWord config (tokens ! i)) [start..<stop] 0"

text \<open>
  The four variables of the search for the highest scale word: \<open>highestIdx\<close>,
  \<open>highestValue\<close>, \<open>highestToken\<close>, \<open>highestScalePos\<close>. \<open>None\<close> stands for
  \<open>highestIdx = -1\<close>, where \<open>highestValue\<close> is still 0.
\<close>

type_synonym Highest = "(nat \<times> int \<times> string \<times> nat) option"

definition highestValueOf :: "Highest \<Rightarrow> int" where
  "highestValueOf best = (case best of None \<Rightarrow> 0 | Some (idx, v, tok, pos) \<Rightarrow> v)"

definition highestStep :: "nat \<Rightarrow> nat \<Rightarrow> nat \<Rightarrow> ScalePosition \<Rightarrow> Highest \<Rightarrow> Highest" where
  "highestStep start stop i sp best =
     (case sp of (idx, v, tok) \<Rightarrow>
        if idx \<ge> start \<and> idx < stop \<and> v > highestValueOf best
        then Some (idx, v, tok, i) else best)"

definition findHighestInScales ::
  "nat \<Rightarrow> nat \<Rightarrow> ScalePosition list \<Rightarrow> nat \<Rightarrow> nat \<Rightarrow> Highest" where
  "findHighestInScales start stop scalePositions scaleStart scaleEnd =
     fold (\<lambda>i. highestStep start stop i (scalePositions ! i)) [scaleStart..<scaleEnd] None"

definition findHighestParallel ::
  "nat \<Rightarrow> nat \<Rightarrow> nat list \<Rightarrow> int list \<Rightarrow> string list \<Rightarrow> nat \<Rightarrow> nat \<Rightarrow> Highest" where
  "findHighestParallel start stop scaleIndices scaleValues scaleTokens scaleStart scaleEnd =
     fold (\<lambda>i. highestStep start stop i (scaleIndices ! i, scaleValues ! i, scaleTokens ! i))
       [scaleStart..<scaleEnd] None"

lemma highest_fold_in_range:
  "fold (\<lambda>i. highestStep start stop i (f i)) js best = Some (h, v, t, p) \<Longrightarrow>
   (\<forall>h' v' t' p'. best = Some (h', v', t', p') \<longrightarrow> start \<le> h' \<and> h' < stop) \<Longrightarrow>
   start \<le> h \<and> h < stop"
proof (induction js arbitrary: best)
  case Nil
  then show ?case by simp
next
  case (Cons j js)
  have "\<forall>h' v' t' p'. highestStep start stop j (f j) best = Some (h', v', t', p')
          \<longrightarrow> start \<le> h' \<and> h' < stop"
    using Cons.prems(2) by (auto simp: highestStep_def split: prod.splits if_splits)
  with Cons.IH [of "highestStep start stop j (f j) best"] Cons.prems(1)
  show ?case by simp
qed

lemma findHighestInScales_range:
  "findHighestInScales start stop sps scaleStart scaleEnd = Some (h, v, t, p)
     \<Longrightarrow> start \<le> h \<and> h < stop"
  unfolding findHighestInScales_def by (erule highest_fold_in_range) simp

lemma findHighestParallel_range:
  "findHighestParallel start stop idxs vs ts scaleStart scaleEnd = Some (h, v, t, p)
     \<Longrightarrow> start \<le> h \<and> h < stop"
  unfolding findHighestParallel_def by (erule highest_fold_in_range) simp

function parseIntegerTokensWithScales ::
  "ParserLocaleConfig \<Rightarrow> string list \<Rightarrow> nat \<Rightarrow> nat \<Rightarrow> ScalePosition list \<Rightarrow> nat \<Rightarrow> nat \<Rightarrow> int"
  where
  "parseIntegerTokensWithScales config tokens start stop scalePositions scaleStart scaleEnd =
     (if start \<ge> stop then 0
      else case findHighestInScales start stop scalePositions scaleStart scaleEnd of
        None \<Rightarrow> sumRange config tokens start stop
      | Some (highestIdx, highestValue, highestToken, highestScalePos) \<Rightarrow>
          (if highestIdx > start
           then (let leftValue = parseIntegerTokensWithScales config tokens start highestIdx
                                   scalePositions scaleStart highestScalePos
                 in if leftValue = 0 then 1 else leftValue)
           else if highestToken \<in> impliedDualWords config then 2 else 1) * highestValue
          + (if highestIdx + 1 < stop
             then (if usesPostfixOne config \<and> \<not> highestIdx > start
                      \<and> stop - (highestIdx + 1) = 1
                      \<and> tokens ! (highestIdx + 1) \<in> oneWords config
                   then (if \<not> isScaleWord config (tokens ! (highestIdx + 1)) then 0
                         else parseIntegerTokensWithScales config tokens (highestIdx + 1) stop
                                scalePositions (highestScalePos + 1) scaleEnd)
                   else parseIntegerTokensWithScales config tokens (highestIdx + 1) stop
                          scalePositions (highestScalePos + 1) scaleEnd)
             else 0))"
  by pat_completeness auto
termination
proof (relation "measure (\<lambda>(config, tokens, start, stop, rest). stop - start)", goal_cases)
  case 1
  show ?case by simp
next
  case (2 config tokens start stop scalePositions scaleStart scaleEnd x2 x y xa ya xb yb)
  then show ?case by (auto dest: findHighestInScales_range)
next
  case (3 config tokens start stop scalePositions scaleStart scaleEnd x2 x y xa ya xb yb)
  then show ?case by (auto dest: findHighestInScales_range)
next
  case (4 config tokens start stop scalePositions scaleStart scaleEnd x2 x y xa ya xb yb)
  then show ?case by (auto dest: findHighestInScales_range)
qed


function parseWithParallelScales ::
  "ParserLocaleConfig \<Rightarrow> string list \<Rightarrow> nat \<Rightarrow> nat \<Rightarrow> nat list \<Rightarrow> int list \<Rightarrow> string list
     \<Rightarrow> nat \<Rightarrow> nat \<Rightarrow> int"
  where
  "parseWithParallelScales config tokens start stop scaleIndices scaleValues scaleTokens
       scaleStart scaleEnd =
     (if start \<ge> stop then 0
      else case findHighestParallel start stop scaleIndices scaleValues scaleTokens
                  scaleStart scaleEnd of
        None \<Rightarrow> sumRange config tokens start stop
      | Some (highestIdx, highestValue, highestToken, highestScalePos) \<Rightarrow>
          (if highestIdx > start
           then (let leftValue = parseWithParallelScales config tokens start highestIdx
                                   scaleIndices scaleValues scaleTokens scaleStart highestScalePos
                 in if leftValue = 0 then 1 else leftValue)
           else if highestToken \<in> impliedDualWords config then 2 else 1) * highestValue
          + (if highestIdx + 1 < stop
             then (if usesPostfixOne config \<and> \<not> highestIdx > start
                      \<and> stop - (highestIdx + 1) = 1
                      \<and> tokens ! (highestIdx + 1) \<in> oneWords config
                   then (if \<not> isScaleWord config (tokens ! (highestIdx + 1)) then 0
                         else parseWithParallelScales config tokens (highestIdx + 1) stop
                                scaleIndices scaleValues scaleTokens (highestScalePos + 1) scaleEnd)
                   else parseWithParallelScales config tokens (highestIdx + 1) stop
                          scaleIndices scaleValues scaleTokens (highestScalePos + 1) scaleEnd)
             else 0))"
  by pat_completeness auto
termination
proof (relation "measure (\<lambda>(config, tokens, start, stop, rest). stop - start)", goal_cases)
  case 1
  show ?case by simp
next
  case (2 config tokens start stop idxs vs ts scaleStart scaleEnd x2 x y xa ya xb yb)
  then show ?case by (auto dest: findHighestParallel_range)
next
  case (3 config tokens start stop idxs vs ts scaleStart scaleEnd x2 x y xa ya xb yb)
  then show ?case by (auto dest: findHighestParallel_range)
next
  case (4 config tokens start stop idxs vs ts scaleStart scaleEnd x2 x y xa ya xb yb)
  then show ?case by (auto dest: findHighestParallel_range)
qed

text \<open>The first pass of \<open>parseIntegerTokensNoAnd\<close>: three parallel arrays.\<close>

definition parallelStep ::
  "ParserLocaleConfig \<Rightarrow> string list \<Rightarrow> nat
     \<Rightarrow> nat list \<times> int list \<times> string list \<Rightarrow> nat list \<times> int list \<times> string list" where
  "parallelStep config tokens i st =
     (case st of (scaleIndices, scaleValues, scaleTokens) \<Rightarrow>
        (case mapGet (wordToNumber config) (tokens ! i) of
           None \<Rightarrow> st
         | Some num \<Rightarrow>
             if num \<in> scaleWords config
             then (scaleIndices @ [i], scaleValues @ [num], scaleTokens @ [tokens ! i])
             else st))"

definition parseIntegerTokensNoAnd :: "ParserLocaleConfig \<Rightarrow> string list \<Rightarrow> int" where
  "parseIntegerTokensNoAnd config tokens =
     (case fold (parallelStep config tokens) [0..<length tokens] ([], [], []) of
        (scaleIndices, scaleValues, scaleTokens) \<Rightarrow>
          if length scaleIndices = 0 then sumRange config tokens 0 (length tokens)
          else parseWithParallelScales config tokens 0 (length tokens)
                 scaleIndices scaleValues scaleTokens 0 (length scaleIndices))"

text \<open>The first pass of \<open>parseIntegerTokens\<close>: \<open>effectiveLength\<close> and \<open>scalePositions\<close>.\<close>

definition scanStep ::
  "ParserLocaleConfig \<Rightarrow> string \<Rightarrow> nat \<times> ScalePosition list \<Rightarrow> nat \<times> ScalePosition list" where
  "scanStep config token st =
     (case st of (effectiveLength, scalePositions) \<Rightarrow>
        if token \<in> andWordsSet config then st
        else (effectiveLength + 1,
              case mapGet (wordToNumber config) token of
                None \<Rightarrow> scalePositions
              | Some num \<Rightarrow>
                  if num \<in> scaleWords config
                  then scalePositions @ [(effectiveLength, num, token)]
                  else scalePositions))"

definition sumSkippingAnd :: "ParserLocaleConfig \<Rightarrow> string list \<Rightarrow> int" where
  "sumSkippingAnd config tokens =
     fold (\<lambda>token acc. if token \<in> andWordsSet config then acc else addWord config token acc)
       tokens 0"

definition parseIntegerTokens :: "ParserLocaleConfig \<Rightarrow> string list \<Rightarrow> int" where
  "parseIntegerTokens config tokens =
     (if length tokens = 0 then 0
      else if andWordsSet config = {} then parseIntegerTokensNoAnd config tokens
      else case fold (scanStep config) tokens (0, []) of
        (effectiveLength, scalePositions) \<Rightarrow>
          if effectiveLength = 0 then 0
          else if length scalePositions = 0 then sumSkippingAnd config tokens
          else parseIntegerTokensWithScales config
                 (filter (\<lambda>token. token \<notin> andWordsSet config) tokens)
                 0 effectiveLength scalePositions 0 (length scalePositions))"

text \<open>The pass of \<open>parseIntegerTokensInRange\<close>: \<open>filteredTokens\<close> and \<open>scalePositions\<close>.\<close>

definition rangeStep ::
  "ParserLocaleConfig \<Rightarrow> string \<Rightarrow> string list \<times> ScalePosition list
     \<Rightarrow> string list \<times> ScalePosition list" where
  "rangeStep config token st =
     (case st of (filteredTokens, scalePositions) \<Rightarrow>
        if andWordsSet config \<noteq> {} \<and> token \<in> andWordsSet config then st
        else (filteredTokens @ [token],
              case mapGet (wordToNumber config) token of
                None \<Rightarrow> scalePositions
              | Some num \<Rightarrow>
                  if num \<in> scaleWords config
                  then scalePositions @ [(length filteredTokens, num, token)]
                  else scalePositions))"

definition parseIntegerTokensInRange ::
  "ParserLocaleConfig \<Rightarrow> string list \<Rightarrow> nat \<Rightarrow> nat \<Rightarrow> int" where
  "parseIntegerTokensInRange config tokens start stop =
     (if start \<ge> stop then 0
      else case fold (\<lambda>i. rangeStep config (tokens ! i)) [start..<stop] ([], []) of
        (filteredTokens, scalePositions) \<Rightarrow>
          if length filteredTokens = 0 then 0
          else if length scalePositions = 0
          then sumRange config filteredTokens 0 (length filteredTokens)
          else parseIntegerTokensWithScales config filteredTokens 0 (length filteredTokens)
                 scalePositions 0 (length scalePositions))"

section \<open>The numeral parser: decimals, ordinals, plain numbers\<close>

definition isSingleDigit :: "ParserLocaleConfig \<Rightarrow> string \<Rightarrow> bool" where
  "isSingleDigit config token =
     (case mapGet (wordToNumber config) token of
        None \<Rightarrow> False | Some num \<Rightarrow> 0 \<le> num \<and> num \<le> 9)"

definition isAllSingleDigits :: "ParserLocaleConfig \<Rightarrow> string list \<Rightarrow> bool" where
  "isAllSingleDigits config tokens = list_all (isSingleDigit config) tokens"

text \<open>The digits appended to \<open>decimalStr\<close>, and \<open>parseInt(decimalStr, 10) || 0\<close>.\<close>

definition decimalDigits :: "ParserLocaleConfig \<Rightarrow> string list \<Rightarrow> int list" where
  "decimalDigits config tokens =
     concat (map (\<lambda>token. case mapGet (wordToNumber config) token of
                              None \<Rightarrow> []
                            | Some digit \<Rightarrow> if 0 \<le> digit \<and> digit \<le> 9 then [digit] else [])
              tokens)"

definition digitsToInt :: "int list \<Rightarrow> int" where
  "digitsToInt ds = fold (\<lambda>d acc. 10 * acc + d) ds 0"

text \<open>\<open>Math.floor(Math.log10(n))\<close> for a positive integer, in exact arithmetic.\<close>

fun floorLog10 :: "nat \<Rightarrow> nat" where
  "floorLog10 n = (if n < 10 then 0 else Suc (floorLog10 (n div 10)))"

text \<open>\<open>places\<close> is \<open>None\<close> where the source computes \<open>NaN\<close> (a negative value).\<close>

record DecimalResult =
  decimalValue :: int
  places :: "nat option"

definition parseDecimalTokens :: "ParserLocaleConfig \<Rightarrow> string list \<Rightarrow> DecimalResult" where
  "parseDecimalTokens config tokens =
     (if length tokens = 0 then \<lparr> decimalValue = 0, places = Some 0 \<rparr>
      else if mapGet (wordToNumber config) (hd tokens) = Some 0 \<or> isAllSingleDigits config tokens
      then \<lparr> decimalValue = digitsToInt (decimalDigits config tokens),
             places = Some (length (decimalDigits config tokens)) \<rparr>
      else let v = parseIntegerTokens config tokens
           in \<lparr> decimalValue = v,
                places = (if v = 0 then Some 0
                          else if v < 0 then None
                          else Some (floorLog10 (nat v) + 1)) \<rparr>)"

definition combineIntegerAndDecimal :: "int \<Rightarrow> int \<Rightarrow> nat \<Rightarrow> rat" where
  "combineIntegerAndDecimal integerPart decimalPart decimalPlaces =
     (if decimalPart = 0 \<or> decimalPlaces = 0 then of_int integerPart
      else of_int integerPart + of_int decimalPart / 10 ^ decimalPlaces)"

text \<open>\<open>findPointIndexInRange\<close>: \<open>None\<close> stands for \<open>-1\<close>.\<close>

definition ambiguousPoint :: "ParserLocaleConfig \<Rightarrow> bool" where
  "ambiguousPoint config =
     (case (textsPoint (parserTexts config), textsAnd (parserTexts config)) of
        (pointWord # ps, andWord # as) \<Rightarrow> pointWord \<noteq> [] \<and> andWord \<noteq> [] \<and> pointWord = andWord
      | _ \<Rightarrow> False)"

definition findPointIndexInRange ::
  "string list \<Rightarrow> nat \<Rightarrow> nat \<Rightarrow> ParserLocaleConfig \<Rightarrow> nat option" where
  "findPointIndexInRange tokens start stop config =
     (if ambiguousPoint config then None
      else map_option (\<lambda>i. i - start)
             (find (\<lambda>i. tokens ! i \<in> set (textsPoint (parserTexts config))) [start..<stop]))"

definition placesPositive :: "nat option \<Rightarrow> bool" where
  "placesPositive p = (case p of None \<Rightarrow> False | Some n \<Rightarrow> n > 0)"

text \<open>The part of \<open>parseNumberFromTokens\<close> both branches share: the unsigned number.\<close>

definition parseUnsigned :: "ParserLocaleConfig \<Rightarrow> string list \<Rightarrow> rat" where
  "parseUnsigned config numberTokens =
     (case findPointIndexInRange numberTokens 0 (length numberTokens) config of
        None \<Rightarrow> of_int (parseIntegerTokens config numberTokens)
      | Some pointIndex \<Rightarrow>
          (let integerTokens = take pointIndex numberTokens;
               decimalTokens = drop (pointIndex + 1) numberTokens;
               integerPart = (if length integerTokens > 0
                              then parseIntegerTokens config integerTokens else 0);
               decimalResult = parseDecimalTokens config decimalTokens
           in if placesPositive (places decimalResult)
              then combineIntegerAndDecimal integerPart (decimalValue decimalResult)
                     (the (places decimalResult))
              else of_int integerPart))"

definition parseNumberFromTokens :: "string list \<Rightarrow> ParserLocaleConfig \<Rightarrow> rat" where
  "parseNumberFromTokens tokens config =
     (if length tokens = 0 then 0
      else if hd tokens \<in> set (textsMinus (parserTexts config))
      then - parseUnsigned config (drop 1 tokens)
      else parseUnsigned config tokens)"

definition joinSpace :: "string list \<Rightarrow> string" where
  "joinSpace tokens = concat (case tokens of [] \<Rightarrow> [] | t # ts \<Rightarrow> t # map ((#) (CHR 0x20)) ts)"

definition endsWith :: "string \<Rightarrow> string \<Rightarrow> bool" where
  "endsWith s suffix \<longleftrightarrow>
     length suffix \<le> length s \<and> drop (length s - length suffix) s = suffix"

text \<open>\<open>detectOrdinal\<close> returns \<open>ordinalTokenIndex\<close> and \<open>ordinalValue\<close>.\<close>

definition detectOrdinal :: "string list \<Rightarrow> ParserLocaleConfig \<Rightarrow> (nat \<times> int) option" where
  "detectOrdinal tokens config =
     (if length tokens = 0 \<or> length (ordinalWordToNumber config) = 0 then None
      else case (if length tokens \<le> 4
                 then mapGet (ordinalWordToNumber config) (joinSpace tokens) else None) of
        Some exactMatch \<Rightarrow> Some (0, exactMatch)
      | None \<Rightarrow>
          (case mapGet (ordinalWordToNumber config) (last tokens) of
             Some ordinalValue \<Rightarrow> Some (length tokens - 1, ordinalValue)
           | None \<Rightarrow>
               (case ordinalSuffix config of
                  None \<Rightarrow> None
                | Some suffix \<Rightarrow>
                    if suffix \<noteq> [] \<and> endsWith (last tokens) suffix
                    then (case mapGet (wordToNumber config)
                                 (take (length (last tokens) - length suffix) (last tokens)) of
                            None \<Rightarrow> None
                          | Some baseValue \<Rightarrow> Some (length tokens - 1, baseValue))
                    else None)))"

definition parseOrdinalFromTokens :: "string list \<Rightarrow> ParserLocaleConfig \<Rightarrow> int option" where
  "parseOrdinalFromTokens tokens config =
     (if length tokens = 0 then None
      else let numberTokens = (if hd tokens \<in> set (textsMinus (parserTexts config))
                               then drop 1 tokens else tokens)
           in if length numberTokens = 0 then None
              else case detectOrdinal numberTokens config of
                None \<Rightarrow> None
              | Some (ordinalTokenIndex, ordinalValue) \<Rightarrow>
                  if ordinalTokenIndex = 0 \<and> length numberTokens = 1 then Some ordinalValue
                  else if ordinalTokenIndex = 0 \<and> length numberTokens > 1 then Some ordinalValue
                  else if length (take ordinalTokenIndex numberTokens) = 0 then Some ordinalValue
                  else Some (parseIntegerTokens config (take ordinalTokenIndex numberTokens)
                             + ordinalValue))"


section \<open>Currency parsing and the facade (ToNumbersCore.ts)\<close>

text \<open>An optional property of an options object: missing, present but \<open>undefined\<close>, or set.\<close>

datatype 'a field = Absent | Undefined | Present 'a

record CurrencyOverrides =
  overrideName :: "string option"
  overridePlural :: "string option"
  overrideSingular :: "string option"
  overrideFractionalUnit :: "UnitNames option"

record ConverterOptions =
  optCurrency :: "bool field"
  currencyOptions :: "CurrencyOverrides field"

record CurrencyInfo =
  mainAmount :: int
  fractionalAmount :: int

record ParseResult =
  resultValue :: rat
  isCurrency :: bool
  isNegative :: bool
  isOrdinal :: "bool option"
  currencyInfo :: "CurrencyInfo option"

text \<open>A configured instance: its locale and the converter options it was built with.\<close>

record ToNumbersCore =
  localeConfig :: OriginalLocaleConfig
  converterOptions :: "ConverterOptions option"

datatype JSValue = JSNull | JSUndefined | JSString string | JSNumber int

datatype Error = InvalidInput JSValue

definition DefaultConverterOptions :: ConverterOptions where
  "DefaultConverterOptions = \<lparr> optCurrency = Present False, currencyOptions = Absent \<rparr>"

definition getParserConfig :: "ToNumbersCore \<Rightarrow> ParserLocaleConfig" where
  "getParserConfig this = buildParserLocaleConfig (localeConfig this) False"

definition isDefined :: "'a field \<Rightarrow> bool" where
  "isDefined f = (case f of Present x \<Rightarrow> True | _ \<Rightarrow> False)"

definition assignField :: "'a field \<Rightarrow> 'a field \<Rightarrow> 'a field" where
  "assignField target source = (case source of Absent \<Rightarrow> target | _ \<Rightarrow> source)"

definition mergeOptions :: "ToNumbersCore \<Rightarrow> ConverterOptions \<Rightarrow> ConverterOptions" where
  "mergeOptions this options =
     (if isDefined (optCurrency options) \<or> isDefined (currencyOptions options)
      then (case converterOptions this of
              None \<Rightarrow> options
            | Some defaults \<Rightarrow>
                \<lparr> optCurrency = assignField (optCurrency defaults) (optCurrency options),
                  currencyOptions = assignField (currencyOptions defaults) (currencyOptions options) \<rparr>)
      else (case converterOptions this of None \<Rightarrow> options | Some defaults \<Rightarrow> defaults))"

definition currencyMode :: "ConverterOptions \<Rightarrow> bool" where
  "currencyMode options \<longleftrightarrow> optCurrency options = Present True"

definition isValidInput :: "JSValue \<Rightarrow> bool" where
  "isValidInput input =
     (case input of JSString s \<Rightarrow> list_ex (\<lambda>c. \<not> isSep c) s | _ \<Rightarrow> False)"

text \<open>\<open>[...new Set(xs)]\<close>: the first occurrence of each element, in order.\<close>

fun uniqueInOrder :: "'a list \<Rightarrow> 'a list" where
  "uniqueInOrder [] = []"
| "uniqueInOrder (x # xs) = x # uniqueInOrder (filter (\<lambda>y. y \<noteq> x) xs)"

definition pushLower :: "string option \<Rightarrow> string list \<Rightarrow> string list" where
  "pushLower w acc =
     (case w of None \<Rightarrow> acc | Some x \<Rightarrow> if x = [] then acc else acc @ [toLowerCase x])"

definition getCurrencyConfig :: "ParserLocaleConfig \<Rightarrow> ConverterOptions \<Rightarrow> CurrencyWords" where
  "getCurrencyConfig config options =
     (case currencyOptions options of
        Present co \<Rightarrow>
          (let main = pushLower (overrideSingular co)
                        (pushLower (overridePlural co) (pushLower (overrideName co) []));
               frac = (case overrideFractionalUnit co of
                         None \<Rightarrow> []
                       | Some fu \<Rightarrow>
                           pushLower (unitSingular fu)
                             (pushLower (Some (unitPlural fu)) (pushLower (Some (unitName fu)) [])))
           in \<lparr> mainUnit = uniqueInOrder (main @ mainUnit (currencyWords config)),
                fractionalUnitWords =
                  uniqueInOrder (frac @ fractionalUnitWords (currencyWords config)) \<rparr>)
      | _ \<Rightarrow> currencyWords config)"

definition unitMatchesAt :: "string list \<Rightarrow> nat \<Rightarrow> nat \<Rightarrow> string list \<Rightarrow> bool" where
  "unitMatchesAt tokens stop i unitParts \<longleftrightarrow>
     list_all (\<lambda>j. i + j < stop \<and> tokens ! (i + j) = unitParts ! j) [0..<length unitParts]"

text \<open>\<open>findCurrencyUnitInRange\<close> returns \<open>startIndex\<close> and \<open>endIndex\<close>.\<close>

function findCurrencyUnitInRange ::
  "string list \<Rightarrow> nat \<Rightarrow> nat \<Rightarrow> string set \<Rightarrow> string list list \<Rightarrow> (nat \<times> nat) option" where
  "findCurrencyUnitInRange tokens i stop singleWordSet multiWordUnits =
     (if i < stop
      then (case find (unitMatchesAt tokens stop i) multiWordUnits of
              Some unitParts \<Rightarrow> Some (i, i + length unitParts)
            | None \<Rightarrow>
                if tokens ! i \<in> singleWordSet then Some (i, i + 1)
                else findCurrencyUnitInRange tokens (i + 1) stop singleWordSet multiWordUnits)
      else None)"
  by pat_completeness auto
termination
  by (relation "measure (\<lambda>(tokens, i, stop, rest). stop - i)") auto

definition zeroCurrencyResult :: ParseResult where
  "zeroCurrencyResult =
     \<lparr> resultValue = 0, isCurrency = True, isNegative = False, isOrdinal = None,
       currencyInfo = Some \<lparr> mainAmount = 0, fractionalAmount = 0 \<rparr> \<rparr>"

definition unitMatches ::
  "ParserLocaleConfig \<Rightarrow> ConverterOptions \<Rightarrow> string list \<Rightarrow> nat \<Rightarrow> nat
     \<Rightarrow> (nat \<times> nat) option \<times> (nat \<times> nat) option" where
  "unitMatches config options tokens tokenStart tokenEnd =
     (case currencyOptions options of
        Present co \<Rightarrow>
          (let customConfig = getCurrencyConfig config options
           in (findCurrencyUnitInRange tokens tokenStart tokenEnd
                 (set (filter (\<lambda>u. \<not> includesSpace u) (mainUnit customConfig)))
                 (map (splitOn (CHR 0x20)) (filter includesSpace (mainUnit customConfig))),
               findCurrencyUnitInRange tokens tokenStart tokenEnd
                 (set (filter (\<lambda>u. \<not> includesSpace u) (fractionalUnitWords customConfig)))
                 (map (splitOn (CHR 0x20))
                    (filter includesSpace (fractionalUnitWords customConfig)))))
      | _ \<Rightarrow>
          (findCurrencyUnitInRange tokens tokenStart tokenEnd
             (mainUnitSet config) (mainUnitMultiWord config),
           findCurrencyUnitInRange tokens tokenStart tokenEnd
             (fractionalUnitSet config) (fractionalUnitMultiWord config)))"

text \<open>\<open>parseCurrency\<close> from the tokens on.\<close>

definition parseCurrencyTokens ::
  "ParserLocaleConfig \<Rightarrow> ConverterOptions \<Rightarrow> string list \<Rightarrow> ParseResult" where
  "parseCurrencyTokens config options tokens =
     (if length tokens = 0 then zeroCurrencyResult
      else
        let negative = (hd tokens \<in> set (textsMinus (parserTexts config)));
            tokenStart = (if negative then 1 else 0);
            tokenEnd = (if length tokens > tokenStart
                           \<and> tokens ! (length tokens - 1) \<in> set (textsOnly (parserTexts config))
                        then length tokens - 1 else length tokens);
            amounts =
              (case unitMatches config options tokens tokenStart tokenEnd of
                 (None, None) \<Rightarrow>
                   (parseIntegerTokensInRange config tokens tokenStart tokenEnd, 0)
               | (Some mainUnitMatch, None) \<Rightarrow>
                   (parseIntegerTokensInRange config tokens tokenStart (fst mainUnitMatch), 0)
               | (None, Some fractionalUnitMatch) \<Rightarrow>
                   (0, parseIntegerTokensInRange config tokens tokenStart (fst fractionalUnitMatch))
               | (Some mainUnitMatch, Some fractionalUnitMatch) \<Rightarrow>
                   (parseIntegerTokensInRange config tokens tokenStart (fst mainUnitMatch),
                    parseIntegerTokensInRange config tokens
                      (if snd mainUnitMatch < tokenEnd
                          \<and> tokens ! (snd mainUnitMatch) \<in> andWordsSet config
                       then snd mainUnitMatch + 1 else snd mainUnitMatch)
                      (fst fractionalUnitMatch)));
            v = of_int (fst amounts) + of_int (snd amounts) / 100
        in \<lparr> resultValue = (if negative then - v else v),
             isCurrency = True,
             isNegative = negative,
             isOrdinal = None,
             currencyInfo = Some \<lparr> mainAmount = fst amounts, fractionalAmount = snd amounts \<rparr> \<rparr>)"

definition parseCurrency ::
  "ToNumbersCore \<Rightarrow> string \<Rightarrow> ConverterOptions \<Rightarrow> ParseResult option" where
  "parseCurrency this ws options =
     map_option (parseCurrencyTokens (getParserConfig this) options)
       (getTokens (getParserConfig this) ws)"

text \<open>
  \<open>convert\<close> and \<open>parse\<close>. A thrown error is \<open>Inl\<close>; \<open>None\<close> is a call that never
  returns (the tokenizer looping on an empty vocabulary word).
\<close>

definition convert :: "ToNumbersCore \<Rightarrow> JSValue \<Rightarrow> ConverterOptions \<Rightarrow> (Error + rat) option" where
  "convert this input options =
     (case input of
        JSString ws \<Rightarrow>
          if \<not> isValidInput input then Some (Inl (InvalidInput input))
          else if currencyMode (mergeOptions this options)
          then map_option (\<lambda>r. Inr (resultValue r)) (parseCurrency this ws (mergeOptions this options))
          else (case getTokens (getParserConfig this) ws of
                  None \<Rightarrow> None
                | Some tokens \<Rightarrow>
                    if length tokens = 0 then Some (Inr 0)
                    else (case parseOrdinalFromTokens tokens (getParserConfig this) of
                            Some ordinalResult \<Rightarrow> Some (Inr (of_int ordinalResult))
                          | None \<Rightarrow>
                              Some (Inr (parseNumberFromTokens tokens (getParserConfig this)))))
      | _ \<Rightarrow> Some (Inl (InvalidInput input)))"

definition plainResult :: "rat \<Rightarrow> bool option \<Rightarrow> ParseResult" where
  "plainResult v ord =
     \<lparr> resultValue = v, isCurrency = False, isNegative = (v < 0), isOrdinal = ord,
       currencyInfo = None \<rparr>"

definition parse ::
  "ToNumbersCore \<Rightarrow> JSValue \<Rightarrow> ConverterOptions \<Rightarrow> (Error + ParseResult) option" where
  "parse this input options =
     (case input of
        JSString ws \<Rightarrow>
          if \<not> isValidInput input then Some (Inl (InvalidInput input))
          else if currencyMode (mergeOptions this options)
          then map_option Inr (parseCurrency this ws (mergeOptions this options))
          else (case getTokens (getParserConfig this) ws of
                  None \<Rightarrow> None
                | Some tokens \<Rightarrow>
                    if length tokens = 0
                    then Some (Inr \<lparr> resultValue = 0, isCurrency = False, isNegative = False,
                                     isOrdinal = None, currencyInfo = None \<rparr>)
                    else (case parseOrdinalFromTokens tokens (getParserConfig this) of
                            Some ordinalResult \<Rightarrow>
                              Some (Inr (plainResult (of_int ordinalResult) (Some True)))
                          | None \<Rightarrow>
                              Some (Inr (plainResult
                                           (parseNumberFromTokens tokens (getParserConfig this))
                                           None))))
      | _ \<Rightarrow> Some (Inl (InvalidInput input)))"


section \<open>Properties of input cleaning\<close>

text \<open>
  A period or comma that stands immediately before white space or at the end of the
  string: the occurrences the punctuation pattern of \<open>cleanInput\<close> removes.
\<close>

fun punctBeforeBreak :: "string \<Rightarrow> bool" where
  "punctBeforeBreak [] = False"
| "punctBeforeBreak (c # cs) =
     ((isPunct c \<and> (cs = [] \<or> isWhiteSpace (hd cs))) \<or> punctBeforeBreak cs)"

definition trimmed :: "string \<Rightarrow> bool" where
  "trimmed t \<longleftrightarrow> t = [] \<or> (\<not> isWhiteSpace (hd t) \<and> \<not> isWhiteSpace (last t))"

fun spaced :: "string \<Rightarrow> bool" where
  "spaced [] = True"
| "spaced (c # cs) =
     ((isWhiteSpace c \<longrightarrow> c = CHR 0x20 \<and> cs \<noteq> [] \<and> \<not> isWhiteSpace (hd cs)) \<and> spaced cs)"

lemma space_is_ws: "isWhiteSpace (CHR 0x20)"
  by (simp add: isWhiteSpace_def)

lemma punct_not_ws: "isPunct c \<Longrightarrow> \<not> isWhiteSpace c"
  by (auto simp: isPunct_def isWhiteSpace_def)

lemma last_dropWhile_eq: "dropWhile P xs \<noteq> [] \<Longrightarrow> last (dropWhile P xs) = last xs"
  by (induction xs) (auto split: if_splits)

lemma trimmed_trim: "trimmed (trim s)"
proof -
  let ?d = "dropWhile isWhiteSpace s"
  let ?e = "dropWhile isWhiteSpace (rev ?d)"
  show ?thesis
  proof (cases "?e = []")
    case True
    then show ?thesis by (simp add: trimmed_def trim_def)
  next
    case False
    then have h: "\<not> isWhiteSpace (hd ?e)" by (rule hd_dropWhile)
    have dne: "?d \<noteq> []"
    proof
      assume "?d = []"
      then have "?e = []" by (simp only: rev.simps dropWhile.simps)
      with False show False by simp
    qed
    then have hd_d: "\<not> isWhiteSpace (hd ?d)" by (rule hd_dropWhile)
    have "last ?e = last (rev ?d)" using False by (rule last_dropWhile_eq)
    also have "\<dots> = hd ?d" using dne by (simp add: last_rev)
    finally have l: "\<not> isWhiteSpace (last ?e)" using hd_d by simp
    show ?thesis
      using h l False
      by (simp add: trimmed_def trim_def last_rev hd_rev)
  qed
qed

lemma dropWhile_last_id: "xs \<noteq> [] \<Longrightarrow> \<not> P (last xs) \<Longrightarrow> dropWhile P (rev xs) = rev xs"
  by (cases xs rule: rev_cases) auto

lemma trim_trimmed: "trimmed t \<Longrightarrow> trim t = t"
proof (cases "t = []")
  case True
  then show ?thesis by (simp add: trim_def)
next
  case False
  assume "trimmed t"
  with False have a: "\<not> isWhiteSpace (hd t)" and b: "\<not> isWhiteSpace (last t)"
    by (auto simp: trimmed_def)
  from a False have "dropWhile isWhiteSpace t = t" by (cases t) auto
  then show ?thesis using b False by (simp add: trim_def dropWhile_last_id)
qed

lemma pbb_append_left: "punctBeforeBreak ys \<Longrightarrow> punctBeforeBreak (xs @ ys)"
  by (induction xs) auto

lemma pbb_append_ws:
  "punctBeforeBreak xs \<Longrightarrow> \<forall>c\<in>set w. isWhiteSpace c \<Longrightarrow> punctBeforeBreak (xs @ w)"
proof (induction xs)
  case Nil
  then show ?case by simp
next
  case (Cons c cs)
  then show ?case by (cases cs; cases w) auto
qed

lemma pbb_dropWhile: "punctBeforeBreak (dropWhile P xs) \<Longrightarrow> punctBeforeBreak xs"
  using pbb_append_left [of "dropWhile P xs" "takeWhile P xs"] by simp

lemma pbb_trim: "punctBeforeBreak (trim s) \<Longrightarrow> punctBeforeBreak s"
proof -
  assume a: "punctBeforeBreak (trim s)"
  let ?d = "dropWhile isWhiteSpace s"
  have "trim s @ rev (takeWhile isWhiteSpace (rev ?d))
          = rev (takeWhile isWhiteSpace (rev ?d) @ dropWhile isWhiteSpace (rev ?d))"
    by (simp only: trim_def rev_append)
  also have "\<dots> = rev (rev ?d)" by (simp only: takeWhile_dropWhile_id)
  finally have d: "?d = trim s @ rev (takeWhile isWhiteSpace (rev ?d))" by simp
  have "\<forall>c\<in>set (rev (takeWhile isWhiteSpace (rev ?d))). isWhiteSpace c"
    by (auto dest: set_takeWhileD)
  with a have "punctBeforeBreak (trim s @ rev (takeWhile isWhiteSpace (rev ?d)))"
    by (rule pbb_append_ws)
  with d have "punctBeforeBreak ?d" by simp
  then show ?thesis by (rule pbb_dropWhile)
qed

lemma stripPunct_id: "\<not> punctBeforeBreak u \<Longrightarrow> stripPunct u = u"
  by (induction u) auto

lemma collapse_Nil_iff: "collapseSpaces cs = [] \<longleftrightarrow> cs = []"
  by (cases cs) auto

lemma hd_collapse_ws: "cs \<noteq> [] \<Longrightarrow> isWhiteSpace (hd (collapseSpaces cs)) \<longleftrightarrow> isWhiteSpace (hd cs)"
  by (cases cs) (auto simp: space_is_ws)

lemma pbb_collapse: "punctBeforeBreak (collapseSpaces t) \<Longrightarrow> punctBeforeBreak t"
proof (induction t rule: collapseSpaces.induct)
  case 1
  then show ?case by simp
next
  case (2 c cs)
  show ?case
  proof (cases "isWhiteSpace c")
    case True
    with 2 have "punctBeforeBreak (dropWhile isWhiteSpace cs)"
      by (auto simp: isPunct_def)
    then show ?thesis by (auto dest: pbb_dropWhile)
  next
    case False
    with 2 show ?thesis
      by (cases "cs = []") (auto simp: collapse_Nil_iff hd_collapse_ws)
  qed
qed

lemma spaced_collapse:
  "t \<noteq> [] \<Longrightarrow> \<not> isWhiteSpace (last t) \<Longrightarrow> spaced (collapseSpaces t)"
proof (induction t rule: collapseSpaces.induct)
  case 1
  then show ?case by simp
next
  case (2 c cs)
  show ?case
  proof (cases "isWhiteSpace c")
    case True
    let ?r = "dropWhile isWhiteSpace cs"
    from 2(3,4) True have csne: "cs \<noteq> []" by auto
    with 2(4) have lcs: "\<not> isWhiteSpace (last cs)" by simp
    then have rne: "?r \<noteq> []" using csne
      by (metis dropWhile_eq_Nil_conv last_in_set)
    then have "\<not> isWhiteSpace (hd ?r)" by (rule hd_dropWhile)
    moreover have "\<not> isWhiteSpace (last ?r)" using rne lcs by (simp add: last_dropWhile_eq)
    ultimately show ?thesis
      using True rne 2(1) by (simp add: collapse_Nil_iff hd_collapse_ws)
  next
    case False
    show ?thesis
    proof (cases "cs = []")
      case True
      with False show ?thesis by simp
    next
      case nonempty: False
      with 2(4) have "\<not> isWhiteSpace (last cs)" by simp
      with nonempty False 2(2) show ?thesis by simp
    qed
  qed
qed

lemma spaced_last: "spaced u \<Longrightarrow> u \<noteq> [] \<Longrightarrow> \<not> isWhiteSpace (last u)"
  by (induction u) auto

lemma spaced_no_cleaning:
  "spaced u \<Longrightarrow> \<not> punctBeforeBreak u \<Longrightarrow> (prev \<longrightarrow> u = [] \<or> \<not> isWhiteSpace (hd u))
     \<Longrightarrow> \<not> needsCleaning prev u"
proof (induction u arbitrary: prev)
  case Nil
  then show ?case by simp
next
  case (Cons c cs)
  show ?case
  proof (cases "c = CHR 0x20")
    case True
    with Cons.prems have np: "\<not> prev" and nxt: "cs \<noteq> [] \<and> \<not> isWhiteSpace (hd cs)"
      by (auto simp: space_is_ws)
    from Cons.prems have "spaced cs" "\<not> punctBeforeBreak cs" by auto
    with nxt have "\<not> needsCleaning True cs" by (intro Cons.IH) auto
    with True np show ?thesis by simp
  next
    case False
    from Cons.prems have "spaced cs" "\<not> punctBeforeBreak cs" by auto
    then have "\<not> needsCleaning False cs" by (intro Cons.IH) auto
    moreover have "\<not> (isPunct c \<and> (cs = [] \<or> hd cs = CHR 0x20))"
      using Cons.prems(2) by (auto simp: space_is_ws)
    ultimately show ?thesis using False by simp
  qed
qed

lemma cleanInput_fixed:
  "trimmed u \<Longrightarrow> \<not> needsCleaning False u \<Longrightarrow> cleanInput u = u"
  by (simp add: cleanInput_def trim_trimmed)


text \<open>
  Claim C8 as stated (\<open>cleanInput\<close> is idempotent on every string) fails: the
  punctuation pattern is applied once, so \<open>a..\<close> is cleaned to \<open>a.\<close>, and cleaning that
  again gives \<open>a\<close>.
\<close>

theorem cleanInput_not_idempotent:
  "cleanInput (cleanInput ''a..'') \<noteq> cleanInput ''a..''"
  by (simp add: cleanInput_def trim_def isWhiteSpace_def isPunct_def)

text \<open>
  Every period or comma that stands immediately before white space or at the end of the
  string comes directly after an ordinary character (neither white space nor a period or
  comma). The flag tells whether the character before the string is ordinary.
\<close>

fun punctAfterWord :: "bool \<Rightarrow> string \<Rightarrow> bool" where
  "punctAfterWord prevOrdinary [] = True"
| "punctAfterWord prevOrdinary (c # cs) =
     ((isPunct c \<and> (cs = [] \<or> isWhiteSpace (hd cs)) \<longrightarrow> prevOrdinary)
      \<and> punctAfterWord (\<not> isWhiteSpace c \<and> \<not> isPunct c) cs)"

lemma paw_dropWhile:
  "punctAfterWord False s \<Longrightarrow> punctAfterWord False (dropWhile isWhiteSpace s)"
  by (induction s) auto

lemma paw_butlast_ws:
  "punctAfterWord prev (t @ w) \<Longrightarrow> \<forall>c\<in>set w. isWhiteSpace c \<Longrightarrow> punctAfterWord prev t"
proof (induction t arbitrary: prev)
  case Nil
  then show ?case by simp
next
  case (Cons c cs)
  from Cons.prems have tl: "punctAfterWord (\<not> isWhiteSpace c \<and> \<not> isPunct c) (cs @ w)" by simp
  have here: "isPunct c \<and> (cs = [] \<or> isWhiteSpace (hd cs)) \<longrightarrow> prev"
  proof (cases "cs = []")
    case True
    with Cons.prems show ?thesis by (cases w) auto
  next
    case False
    with Cons.prems show ?thesis by auto
  qed
  from Cons.IH [OF tl Cons.prems(2)] here show ?case by simp
qed

lemma paw_trim: "punctAfterWord False s \<Longrightarrow> punctAfterWord False (trim s)"
proof -
  assume a: "punctAfterWord False s"
  let ?d = "dropWhile isWhiteSpace s"
  have "trim s @ rev (takeWhile isWhiteSpace (rev ?d))
          = rev (takeWhile isWhiteSpace (rev ?d) @ dropWhile isWhiteSpace (rev ?d))"
    by (simp only: trim_def rev_append)
  also have "\<dots> = rev (rev ?d)" by (simp only: takeWhile_dropWhile_id)
  finally have d: "?d = trim s @ rev (takeWhile isWhiteSpace (rev ?d))" by simp
  have w: "\<forall>c\<in>set (rev (takeWhile isWhiteSpace (rev ?d))). isWhiteSpace c"
    by (auto dest: set_takeWhileD)
  from a have "punctAfterWord False ?d" by (rule paw_dropWhile)
  with d have "punctAfterWord False (trim s @ rev (takeWhile isWhiteSpace (rev ?d)))" by simp
  then show ?thesis using w by (rule paw_butlast_ws)
qed

lemma paw_collapse: "punctAfterWord prev t \<Longrightarrow> punctAfterWord prev (collapseSpaces t)"
proof (induction t arbitrary: prev rule: collapseSpaces.induct)
  case 1
  then show ?case by simp
next
  case (2 c cs)
  show ?case
  proof (cases "isWhiteSpace c")
    case True
    from 2(3) True have "punctAfterWord False cs" by simp
    then have "punctAfterWord False (dropWhile isWhiteSpace cs)" by (rule paw_dropWhile)
    then have "punctAfterWord False (collapseSpaces (dropWhile isWhiteSpace cs))"
      using True by (intro 2(1))
    then show ?thesis using True by (simp add: isPunct_def space_is_ws)
  next
    case False
    from 2(3) have tl: "punctAfterWord (\<not> isWhiteSpace c \<and> \<not> isPunct c) cs" by simp
    have ih: "punctAfterWord (\<not> isWhiteSpace c \<and> \<not> isPunct c) (collapseSpaces cs)"
      using False tl by (intro 2(2))
    have "isPunct c \<and> (collapseSpaces cs = [] \<or> isWhiteSpace (hd (collapseSpaces cs)))
            \<longrightarrow> prev"
      using 2(3) by (cases "cs = []") (auto simp: collapse_Nil_iff hd_collapse_ws)
    with ih False show ?thesis by simp
  qed
qed

lemma strip_keeps_head:
  "punctAfterWord False (d # ds) \<Longrightarrow> stripPunct (d # ds) = d # stripPunct ds"
  by auto

lemma strip_spaced:
  "spaced r \<Longrightarrow> punctAfterWord prev r
     \<Longrightarrow> spaced (stripPunct r) \<and> \<not> punctBeforeBreak (stripPunct r)"
proof (induction r arbitrary: prev)
  case Nil
  then show ?case by simp
next
  case (Cons c cs)
  from Cons.prems have sp: "spaced cs"
    and tl: "punctAfterWord (\<not> isWhiteSpace c \<and> \<not> isPunct c) cs" by auto
  from Cons.IH [OF sp tl]
  have ih: "spaced (stripPunct cs)" "\<not> punctBeforeBreak (stripPunct cs)" by auto
  show ?case
  proof (cases "isPunct c \<and> (cs = [] \<or> isWhiteSpace (hd cs))")
    case True
    then show ?thesis using ih by simp
  next
    case kept: False
    show ?thesis
    proof (cases "isWhiteSpace c \<or> isPunct c")
      case False
      then show ?thesis using kept ih by simp
    next
      case True
      then have flag: "punctAfterWord False cs" using tl by auto
      have ne: "cs \<noteq> []" "\<not> isWhiteSpace (hd cs)"
      proof -
        show "cs \<noteq> []" using True kept Cons.prems(1) by (auto simp: punct_not_ws)
        show "\<not> isWhiteSpace (hd cs)" using True kept Cons.prems(1) by (auto simp: punct_not_ws)
      qed
      then obtain d ds where cs: "cs = d # ds" by (cases cs) auto
      from flag cs have st: "stripPunct cs = d # stripPunct ds" by (simp only: strip_keeps_head)
      have "stripPunct cs \<noteq> []" "\<not> isWhiteSpace (hd (stripPunct cs))"
        using st ne cs by simp_all
      then show ?thesis using kept ih Cons.prems(1) by auto
    qed
  qed
qed

lemma strip_Nil_or_head:
  "punctAfterWord False r \<Longrightarrow> r \<noteq> [] \<Longrightarrow> stripPunct r \<noteq> [] \<and> hd (stripPunct r) = hd r"
  by (cases r) auto

text \<open>
  Claim C8, amended: \<open>cleanInput (cleanInput s) = cleanInput s\<close> for every string \<open>s\<close>
  that needs no cleaning after trimming, or in which every period or comma standing
  immediately before white space or at the end of the input directly follows an ordinary
  character (so no such mark follows white space, starts the input, or follows another
  period or comma).
\<close>

theorem cleanInput_idempotent_after_words:
  "\<not> needsCleaning False (trim s) \<or> punctAfterWord False s
     \<Longrightarrow> cleanInput (cleanInput s) = cleanInput s"
proof -
  assume h: "\<not> needsCleaning False (trim s) \<or> punctAfterWord False s"
  let ?t = "trim s"
  have tt: "trimmed ?t" by (rule trimmed_trim)
  show ?thesis
  proof (cases "s = [] \<or> \<not> needsCleaning False ?t")
    case True
    then have "cleanInput s = ?t" by (auto simp: cleanInput_def trim_def)
    then show ?thesis using True tt
      by (metis cleanInput_def cleanInput_fixed)
  next
    case False
    then have nc: "needsCleaning False ?t" and sne: "s \<noteq> []" by auto
    then have tne: "?t \<noteq> []" by auto
    from h nc have "punctAfterWord False s" by blast
    then have pt: "punctAfterWord False ?t" by (rule paw_trim)
    let ?r = "collapseSpaces ?t"
    let ?u = "stripPunct ?r"
    have pr: "punctAfterWord False ?r" using pt by (rule paw_collapse)
    have r: "cleanInput s = ?u" using nc sne by (simp add: cleanInput_def)
    from tt tne have hl: "\<not> isWhiteSpace (hd ?t)" "\<not> isWhiteSpace (last ?t)"
      by (auto simp: trimmed_def)
    have sp: "spaced ?r" using tne hl(2) by (rule spaced_collapse)
    have rne: "?r \<noteq> []" using tne by (simp add: collapse_Nil_iff)
    from strip_spaced [OF sp pr] have su: "spaced ?u" and nu: "\<not> punctBeforeBreak ?u" by auto
    from strip_Nil_or_head [OF pr rne] have une: "?u \<noteq> []" and hu: "hd ?u = hd ?r" by auto
    have "\<not> isWhiteSpace (hd ?r)" using tne hl(1) by (simp add: hd_collapse_ws)
    then have "\<not> isWhiteSpace (hd ?u)" using hu by simp
    moreover have "\<not> isWhiteSpace (last ?u)" using su une by (rule spaced_last)
    ultimately have tr: "trimmed ?u" by (simp add: trimmed_def)
    have "\<not> needsCleaning False ?u" using su nu by (rule spaced_no_cleaning) simp
    with tr have "cleanInput ?u = ?u" by (rule cleanInput_fixed)
    with r show ?thesis by simp
  qed
qed

theorem cleanInput_idempotent_after_words_witness:
  "cleanInput (cleanInput ''one,  two hundred.'') = cleanInput ''one,  two hundred.''
   \<and> cleanInput ''one,  two hundred.'' = ''one two hundred''
   \<and> cleanInput (cleanInput ''one hundred.'') = cleanInput ''one hundred.''
   \<and> cleanInput (cleanInput '' 3.5 '') = cleanInput '' 3.5 ''"
proof -
  have h: "punctAfterWord False ''one,  two hundred.''" "punctAfterWord False ''one hundred.''"
    "\<not> needsCleaning False (trim '' 3.5 '')"
    by code_simp+
  have v: "cleanInput ''one,  two hundred.'' = ''one two hundred''"
    by code_simp
  have a: "cleanInput (cleanInput ''one,  two hundred.'') = cleanInput ''one,  two hundred.''"
    using h(1) by (intro cleanInput_idempotent_after_words) blast
  have b: "cleanInput (cleanInput ''one hundred.'') = cleanInput ''one hundred.''"
    using h(2) by (intro cleanInput_idempotent_after_words) blast
  have c: "cleanInput (cleanInput '' 3.5 '') = cleanInput '' 3.5 ''"
    using h(3) by (intro cleanInput_idempotent_after_words) blast
  from a v b c show ?thesis by blast
qed

section \<open>Properties of the grammar compiler: scale magnitudes\<close>

text \<open>The magnitude set as the specification lists it: it leaves out \<open>10^10\<close> and \<open>10^14\<close>.\<close>

definition listedScaleValues :: "int set" where
  "listedScaleValues =
     {100, 1000, 10000, 100000, 1000000, 10000000, 100000000, 1000000000,
      100000000000, 1000000000000, 10000000000000,
      1000000000000000, 10000000000000000}"

lemma extractScaleWords_fold:
  "fold (\<lambda>entry acc.
           let number = snd entry;
               acc1 = (if number \<in> SCALE_VALUES then insert number acc else acc)
           in if number \<ge> 100 \<and> even number \<and> number div 2 \<in> SCALE_VALUES
              then insert number acc1 else acc1) m acc
   = acc \<union> {v \<in> snd ` set m. isScaleValue v}"
proof (induction m arbitrary: acc)
  case Nil
  then show ?case by simp
next
  case (Cons e m)
  show ?case
    unfolding fold_simps Cons.IH
    by (auto simp: isScaleValue_def Let_def)
qed

lemma extractScaleWords_eq:
  "extractScaleWords m = {v \<in> snd ` set m. isScaleValue v}"
  unfolding extractScaleWords_def extractScaleWords_fold by simp

lemma double_scale_iff:
  "(n \<ge> 100 \<and> even n \<and> n div 2 \<in> SCALE_VALUES) \<longleftrightarrow> (\<exists>s\<in>SCALE_VALUES. n = 2 * s)"
proof
  assume a: "n \<ge> 100 \<and> even n \<and> n div 2 \<in> SCALE_VALUES"
  then have "n = 2 * (n div 2)" by auto
  with a show "\<exists>s\<in>SCALE_VALUES. n = 2 * s" by blast
next
  assume "\<exists>s\<in>SCALE_VALUES. n = 2 * s"
  then obtain s where s: "s \<in> SCALE_VALUES" "n = 2 * s" by blast
  then have "s \<ge> 100" by (auto simp: SCALE_VALUES_def)
  with s show "n \<ge> 100 \<and> even n \<and> n div 2 \<in> SCALE_VALUES" by simp
qed

lemma SCALE_VALUES_powers: "SCALE_VALUES = (\<lambda>k. 10 ^ k) ` {2..16::nat}"
proof -
  have "{2..16::nat} = {2, 3, 4, 5, 6, 7, 8, 9, 10, 11, 12, 13, 14, 15, 16}"
    by (auto; presburger)
  then show ?thesis by (simp add: SCALE_VALUES_def)
qed

text \<open>
  Claim C7 as stated fails: the code's magnitude set also holds \<open>10^10\<close> and \<open>10^14\<close>,
  so a word mapped to \<open>10^10\<close> is a scale word although \<open>10^10\<close> is neither in the listed
  set nor twice a listed magnitude.
\<close>

theorem scale_set_counterexample:
  "10000000000 \<in> extractScaleWords [(''ten billion'', 10000000000)]
   \<and> 10000000000 \<notin> listedScaleValues
   \<and> 10000000000 \<notin> (\<lambda>s. 2 * s) ` listedScaleValues"
  by (simp add: extractScaleWords_def SCALE_VALUES_def listedScaleValues_def)

text \<open>
  Claim C7, amended: the scale magnitudes of a compiled grammar are exactly the mapped
  values that lie in the fixed magnitude set, or equal twice one of its members, where
  the fixed set is every power of ten from \<open>10^2\<close> to \<open>10^16\<close> (fifteen values,
  \<open>10^10\<close> and \<open>10^14\<close> included); no other value is a scale word.
\<close>

theorem scale_words_exact:
  "(v \<in> extractScaleWords m \<longleftrightarrow>
      v \<in> snd ` set m \<and> (v \<in> SCALE_VALUES \<or> (\<exists>s\<in>SCALE_VALUES. v = 2 * s)))
   \<and> SCALE_VALUES = (\<lambda>k. 10 ^ k) ` {2..16::nat}
   \<and> scaleWords (buildParserLocaleConfig config cs)
       = extractScaleWords (wordToNumber (buildParserLocaleConfig config cs))"
proof -
  have "v \<in> extractScaleWords m \<longleftrightarrow>
          v \<in> snd ` set m \<and> (v \<in> SCALE_VALUES \<or> (\<exists>s\<in>SCALE_VALUES. v = 2 * s))"
    unfolding extractScaleWords_eq isScaleValue_def double_scale_iff by blast
  moreover have "scaleWords (buildParserLocaleConfig config cs)
       = extractScaleWords (wordToNumber (buildParserLocaleConfig config cs))"
    by (simp add: buildParserLocaleConfig_def Let_def)
  ultimately show ?thesis using SCALE_VALUES_powers by blast
qed

theorem scale_words_exact_witness:
  "2000000 \<in> extractScaleWords [(''cento'', 100), (''milioni'', 2000000), (''sei'', 6)]
   \<and> 6 \<notin> extractScaleWords [(''cento'', 100), (''milioni'', 2000000), (''sei'', 6)]
   \<and> 10000000000 \<in> SCALE_VALUES"
proof -
  have a: "2000000 \<in> extractScaleWords [(''cento'', 100), (''milioni'', 2000000), (''sei'', 6)]"
    using scale_words_exact [of 2000000 "[(''cento'', 100), (''milioni'', 2000000), (''sei'', 6)]"]
    by (simp add: SCALE_VALUES_def)
  have b: "6 \<notin> extractScaleWords [(''cento'', 100), (''milioni'', 2000000), (''sei'', 6)]"
    using scale_words_exact [of 6 "[(''cento'', 100), (''milioni'', 2000000), (''sei'', 6)]"]
    by (simp add: SCALE_VALUES_def)
  have c: "(10000000000::int) \<in> SCALE_VALUES" by (simp add: SCALE_VALUES_def)
  from a b c show ?thesis by blast
qed



section \<open>The integer algorithm as the specification words it\<close>

definition dropConjunctions :: "ParserLocaleConfig \<Rightarrow> string list \<Rightarrow> string list" where
  "dropConjunctions config tokens = filter (\<lambda>token. token \<notin> andWordsSet config) tokens"

definition wordValue :: "ParserLocaleConfig \<Rightarrow> string \<Rightarrow> int" where
  "wordValue config token =
     (case mapGet (wordToNumber config) token of None \<Rightarrow> 0 | Some num \<Rightarrow> num)"

definition scaleBestValue :: "(nat \<times> int \<times> string) option \<Rightarrow> int" where
  "scaleBestValue best = (case best of None \<Rightarrow> 0 | Some (i, v, t) \<Rightarrow> v)"

fun scaleLoop ::
  "ParserLocaleConfig \<Rightarrow> nat \<Rightarrow> string list \<Rightarrow> (nat \<times> int \<times> string) option
     \<Rightarrow> (nat \<times> int \<times> string) option" where
  "scaleLoop config i [] best = best"
| "scaleLoop config i (token # rest) best =
     scaleLoop config (Suc i) rest
       (case mapGet (wordToNumber config) token of
          None \<Rightarrow> best
        | Some num \<Rightarrow>
            if num \<in> scaleWords config \<and> num > scaleBestValue best
            then Some (i, num, token) else best)"

definition findHighestScale ::
  "ParserLocaleConfig \<Rightarrow> string list \<Rightarrow> (nat \<times> int \<times> string) option" where
  "findHighestScale config tokens = scaleLoop config 0 tokens None"

lemma scaleLoop_index:
  "scaleLoop config i tokens best = Some (j, v, t) \<Longrightarrow>
   (\<forall>j' v' t'. best = Some (j', v', t') \<longrightarrow> j' < i + length tokens) \<Longrightarrow>
   j < i + length tokens"
proof (induction tokens arbitrary: i best)
  case Nil
  then show ?case by simp
next
  case (Cons token rest)
  let ?b = "case mapGet (wordToNumber config) token of
          None \<Rightarrow> best
        | Some num \<Rightarrow>
            if num \<in> scaleWords config \<and> num > scaleBestValue best
            then Some (i, num, token) else best"
  have "\<forall>j' v' t'. ?b = Some (j', v', t') \<longrightarrow> j' < Suc i + length rest"
    using Cons.prems(2) by (auto split: option.splits if_splits)
  with Cons.IH [of "Suc i" ?b] Cons.prems(1) show ?case by simp
qed

lemma findHighestScale_index:
  "findHighestScale config tokens = Some (j, v, t) \<Longrightarrow> j < length tokens"
  unfolding findHighestScale_def by (drule scaleLoop_index) auto

function parseIntegerSpec :: "ParserLocaleConfig \<Rightarrow> string list \<Rightarrow> int" where
  "parseIntegerSpec config tokens =
     (case findHighestScale config (dropConjunctions config tokens) of
        None \<Rightarrow> sum_list (map (wordValue config) (dropConjunctions config tokens))
      | Some (index, magnitude, scaleToken) \<Rightarrow>
          (if take index (dropConjunctions config tokens) \<noteq> []
           then (let coefficient = parseIntegerSpec config
                                     (take index (dropConjunctions config tokens))
                 in if coefficient = 0 then 1 else coefficient)
           else if scaleToken \<in> impliedDualWords config then 2 else 1) * magnitude
          + (if drop (index + 1) (dropConjunctions config tokens) = [] then 0
             else if usesPostfixOne config
                     \<and> take index (dropConjunctions config tokens) = []
                     \<and> length (drop (index + 1) (dropConjunctions config tokens)) = 1
                     \<and> hd (drop (index + 1) (dropConjunctions config tokens)) \<in> oneWords config
                     \<and> \<not> isScaleWord config (hd (drop (index + 1) (dropConjunctions config tokens)))
             then 0
             else parseIntegerSpec config (drop (index + 1) (dropConjunctions config tokens))))"
  by pat_completeness auto
termination
proof (relation "measure (\<lambda>(config, tokens). length tokens)", goal_cases)
  case 1
  show ?case by simp
next
  case (2 config tokens x2 x y xa ya)
  then have "x < length (dropConjunctions config tokens)"
    by (auto dest: findHighestScale_index)
  moreover have "length (dropConjunctions config tokens) \<le> length tokens"
    by (simp add: dropConjunctions_def)
  ultimately show ?case by simp
next
  case (3 config tokens x2 x y xa ya)
  then have "x < length (dropConjunctions config tokens)"
    by (auto dest: findHighestScale_index)
  moreover have "length (dropConjunctions config tokens) \<le> length tokens"
    by (simp add: dropConjunctions_def)
  ultimately show ?case by simp
qed


declare parseIntegerTokensWithScales.simps [simp del]
declare parseWithParallelScales.simps [simp del]
declare parseIntegerSpec.simps [simp del]

section \<open>The scale positions of a token list\<close>

definition slice :: "'a list \<Rightarrow> nat \<Rightarrow> nat \<Rightarrow> 'a list" where
  "slice xs start stop = take (stop - start) (drop start xs)"

definition scaleEntry :: "ParserLocaleConfig \<Rightarrow> nat \<Rightarrow> string \<Rightarrow> ScalePosition list" where
  "scaleEntry config k token =
     (case mapGet (wordToNumber config) token of
        None \<Rightarrow> []
      | Some num \<Rightarrow> if num \<in> scaleWords config then [(k, num, token)] else [])"

primrec scalesFrom :: "ParserLocaleConfig \<Rightarrow> nat \<Rightarrow> string list \<Rightarrow> ScalePosition list" where
  "scalesFrom config k [] = []"
| "scalesFrom config k (token # rest) = scaleEntry config k token @ scalesFrom config (Suc k) rest"

fun pickHighest :: "nat \<Rightarrow> ScalePosition list \<Rightarrow> Highest \<Rightarrow> Highest" where
  "pickHighest p [] best = best"
| "pickHighest p (e # es) best =
     pickHighest (Suc p) es
       (if fst (snd e) > highestValueOf best then Some (fst e, fst (snd e), snd (snd e), p)
        else best)"

lemma scalesFrom_append:
  "scalesFrom config k (xs @ ys) = scalesFrom config k xs @ scalesFrom config (k + length xs) ys"
  by (induction xs arbitrary: k) auto

lemma scalesFrom_index:
  "e \<in> set (scalesFrom config k xs) \<Longrightarrow> k \<le> fst e \<and> fst e < k + length xs"
proof (induction xs arbitrary: k)
  case Nil
  then show ?case by simp
next
  case (Cons x xs)
  then show ?case
    by (fastforce simp: scaleEntry_def split: option.splits if_splits)
qed

lemma fold_highest_pick:
  "\<forall>e\<in>set E. start \<le> fst e \<and> fst e < stop \<Longrightarrow>
   fold (\<lambda>i. highestStep start stop i ((A @ E @ B) ! i)) [length A..<length A + length E] best
     = pickHighest (length A) E best"
proof (induction E arbitrary: A best)
  case Nil
  then show ?case by simp
next
  case (Cons e E)
  have upt: "[length A..<length A + length (e # E)]
               = length A # [length (A @ [e])..<length (A @ [e]) + length E]"
    by (subst upt_conv_Cons) simp_all
  have nth: "(A @ (e # E) @ B) ! length A = e" by simp
  have app: "A @ (e # E) @ B = (A @ [e]) @ E @ B" by simp
  have step: "highestStep start stop (length A) e best
               = (if fst (snd e) > highestValueOf best
                  then Some (fst e, fst (snd e), snd (snd e), length A) else best)"
    using Cons.prems by (cases e) (auto simp: highestStep_def)
  have ih: "fold (\<lambda>i. highestStep start stop i (((A @ [e]) @ E @ B) ! i))
              [length (A @ [e])..<length (A @ [e]) + length E] b
            = pickHighest (length (A @ [e])) E b" for b
    using Cons.prems by (intro Cons.IH) simp
  show ?case
    unfolding upt fold_simps nth o_apply step
    unfolding app ih by simp
qed

definition related ::
  "ParserLocaleConfig \<Rightarrow> nat \<Rightarrow> string list \<Rightarrow> nat \<Rightarrow> Highest \<Rightarrow> (nat \<times> int \<times> string) option \<Rightarrow> bool"
  where
  "related config base S p0 bestP bestS \<longleftrightarrow>
     (bestP = None \<and> bestS = None) \<or>
     (\<exists>i v t. bestS = Some (i, v, t)
        \<and> bestP = Some (base + i, v, t, p0 + length (scalesFrom config base (take i S)))
        \<and> i < length S \<and> S ! i = t
        \<and> mapGet (wordToNumber config) t = Some v \<and> v \<in> scaleWords config)"

lemma related_value:
  "related config base S p0 bestP bestS \<Longrightarrow> highestValueOf bestP = scaleBestValue bestS"
  by (auto simp: related_def highestValueOf_def scaleBestValue_def)

lemma related_loop:
  "related config base (pre @ S) p0 bestP bestS \<Longrightarrow>
   related config base (pre @ S) p0
     (pickHighest (p0 + length (scalesFrom config base pre))
        (scalesFrom config (base + length pre) S) bestP)
     (scaleLoop config (length pre) S bestS)"
proof (induction S arbitrary: pre bestP bestS)
  case Nil
  then show ?case by simp
next
  case (Cons t ts)
  have eqv: "highestValueOf bestP = scaleBestValue bestS"
    using Cons.prems by (rule related_value)
  let ?S0 = "pre @ t # ts"
  have S0: "(pre @ [t]) @ ts = ?S0" by simp
  show ?case
  proof (cases "scaleEntry config (base + length pre) t = []")
    case True
    then have same: "(case mapGet (wordToNumber config) t of
          None \<Rightarrow> bestS
        | Some num \<Rightarrow>
            if num \<in> scaleWords config \<and> num > scaleBestValue bestS
            then Some (length pre, num, t) else bestS) = bestS"
      by (auto simp: scaleEntry_def split: option.splits if_splits)
    have sf: "scalesFrom config base (pre @ [t]) = scalesFrom config base pre"
      using True by (simp add: scalesFrom_append)
    have "related config base ((pre @ [t]) @ ts) p0
           (pickHighest (p0 + length (scalesFrom config base (pre @ [t])))
              (scalesFrom config (base + length (pre @ [t])) ts) bestP)
           (scaleLoop config (length (pre @ [t])) ts bestS)"
      using Cons.prems by (intro Cons.IH) simp
    then show ?thesis using True same sf by simp
  next
    case False
    then obtain v where v: "mapGet (wordToNumber config) t = Some v" "v \<in> scaleWords config"
      and entry: "scaleEntry config (base + length pre) t = [(base + length pre, v, t)]"
      by (auto simp: scaleEntry_def split: option.splits if_splits)
    have sf: "scalesFrom config base (pre @ [t])
                = scalesFrom config base pre @ [(base + length pre, v, t)]"
      using entry by (simp add: scalesFrom_append)
    let ?bP = "if v > highestValueOf bestP
               then Some (base + length pre, v, t, p0 + length (scalesFrom config base pre))
               else bestP"
    let ?bS = "if v > scaleBestValue bestS then Some (length pre, v, t) else bestS"
    have rel: "related config base ((pre @ [t]) @ ts) p0 ?bP ?bS"
    proof (cases "v > highestValueOf bestP")
      case True
      then show ?thesis using eqv v by (simp add: related_def)
    next
      case False
      then show ?thesis using eqv Cons.prems by simp
    qed
    have "related config base ((pre @ [t]) @ ts) p0
           (pickHighest (p0 + length (scalesFrom config base (pre @ [t])))
              (scalesFrom config (base + length (pre @ [t])) ts) ?bP)
           (scaleLoop config (length (pre @ [t])) ts ?bS)"
      using rel by (rule Cons.IH)
    then show ?thesis using entry v sf eqv
      by (cases "scaleBestValue bestS < v") simp_all
  qed
qed

lemma related_find:
  "related config base S p0 (pickHighest p0 (scalesFrom config base S) None)
     (findHighestScale config S)"
  using related_loop [of config base "[]" S p0 None None]
  by (simp add: findHighestScale_def related_def)


section \<open>The optimised parsers compute the specification's recursion\<close>

lemma WithScales_empty:
  "stop \<le> start \<Longrightarrow>
   parseIntegerTokensWithScales config tokens start stop sps ss se = 0"
  by (subst parseIntegerTokensWithScales.simps) simp

lemma WithScales_none:
  "start < stop \<Longrightarrow> findHighestInScales start stop sps ss se = None \<Longrightarrow>
   parseIntegerTokensWithScales config tokens start stop sps ss se
     = sumRange config tokens start stop"
  by (subst parseIntegerTokensWithScales.simps) simp

lemma WithScales_some:
  "start < stop \<Longrightarrow> findHighestInScales start stop sps ss se = Some (h, v, t, p) \<Longrightarrow>
   parseIntegerTokensWithScales config tokens start stop sps ss se
     = (if h > start
        then (let leftValue = parseIntegerTokensWithScales config tokens start h sps ss p
              in if leftValue = 0 then 1 else leftValue)
        else if t \<in> impliedDualWords config then 2 else 1) * v
       + (if h + 1 < stop
          then (if usesPostfixOne config \<and> \<not> h > start \<and> stop - (h + 1) = 1
                   \<and> tokens ! (h + 1) \<in> oneWords config
                then (if \<not> isScaleWord config (tokens ! (h + 1)) then 0
                      else parseIntegerTokensWithScales config tokens (h + 1) stop sps (p + 1) se)
                else parseIntegerTokensWithScales config tokens (h + 1) stop sps (p + 1) se)
          else 0)"
  by (subst parseIntegerTokensWithScales.simps) simp

lemma spec_none:
  "findHighestScale config (dropConjunctions config tokens) = None \<Longrightarrow>
   parseIntegerSpec config tokens
     = sum_list (map (wordValue config) (dropConjunctions config tokens))"
  by (subst parseIntegerSpec.simps) simp

lemma spec_some:
  "findHighestScale config (dropConjunctions config tokens) = Some (i, v, t) \<Longrightarrow>
   parseIntegerSpec config tokens
     = (if take i (dropConjunctions config tokens) \<noteq> []
        then (let coefficient = parseIntegerSpec config (take i (dropConjunctions config tokens))
              in if coefficient = 0 then 1 else coefficient)
        else if t \<in> impliedDualWords config then 2 else 1) * v
       + (if drop (i + 1) (dropConjunctions config tokens) = [] then 0
          else if usesPostfixOne config
                  \<and> take i (dropConjunctions config tokens) = []
                  \<and> length (drop (i + 1) (dropConjunctions config tokens)) = 1
                  \<and> hd (drop (i + 1) (dropConjunctions config tokens)) \<in> oneWords config
                  \<and> \<not> isScaleWord config (hd (drop (i + 1) (dropConjunctions config tokens)))
          then 0
          else parseIntegerSpec config (drop (i + 1) (dropConjunctions config tokens)))"
  by (subst parseIntegerSpec.simps) simp

lemma fold_addWord:
  "fold (addWord config) xs acc = acc + sum_list (map (wordValue config) xs)"
  by (induction xs arbitrary: acc) (auto simp: addWord_def wordValue_def split: option.splits)

lemma map_nth_slice:
  "stop \<le> length xs \<Longrightarrow> map ((!) xs) [start..<stop] = slice xs start stop"
proof -
  assume a: "stop \<le> length xs"
  have "map ((!) xs) [start..<stop] = map ((!) xs) (drop start (take stop [0..<length xs]))"
    using a by simp
  also have "\<dots> = drop start (take stop (map ((!) xs) [0..<length xs]))"
    by (simp add: drop_map take_map)
  also have "\<dots> = slice xs start stop"
    by (simp add: map_nth slice_def drop_take)
  finally show ?thesis .
qed

lemma sumRange_slice:
  "stop \<le> length tokens \<Longrightarrow>
   sumRange config tokens start stop = sum_list (map (wordValue config) (slice tokens start stop))"
proof -
  assume a: "stop \<le> length tokens"
  have "sumRange config tokens start stop
          = fold (addWord config) (map ((!) tokens) [start..<stop]) 0"
    by (simp add: sumRange_def fold_map o_def)
  then show ?thesis using a by (simp add: map_nth_slice fold_addWord)
qed

lemma length_slice: "stop \<le> length xs \<Longrightarrow> length (slice xs start stop) = stop - start"
  by (simp add: slice_def)

lemma slice_left:
  "h \<le> stop \<Longrightarrow> slice xs start h = take (h - start) (slice xs start stop)"
  by (simp add: slice_def min_def)

lemma slice_right:
  "start \<le> h \<Longrightarrow> slice xs h stop = drop (h - start) (slice xs start stop)"
  by (simp add: slice_def drop_take)

lemma slice_nth:
  "start + i < stop \<Longrightarrow> stop \<le> length xs \<Longrightarrow> slice xs start stop ! i = xs ! (start + i)"
  by (simp add: slice_def)

lemma set_slice: "set (slice xs start stop) \<subseteq> set xs"
  unfolding slice_def by (meson set_drop_subset set_take_subset subset_trans)

lemma dropConjunctions_free:
  "\<forall>t\<in>set xs. t \<notin> andWordsSet config \<Longrightarrow> dropConjunctions config xs = xs"
  by (simp add: dropConjunctions_def)


lemma WithScales_spec:
  assumes free: "\<forall>t\<in>set tokens. t \<notin> andWordsSet config"
  shows "stop \<le> length tokens \<Longrightarrow>
         sps = A @ scalesFrom config start (slice tokens start stop) @ B \<Longrightarrow>
         parseIntegerTokensWithScales config tokens start stop sps (length A)
             (length A + length (scalesFrom config start (slice tokens start stop)))
           = parseIntegerSpec config (slice tokens start stop)"
proof (induction "stop - start" arbitrary: start stop A B rule: less_induct)
  case less
  let ?S = "slice tokens start stop"
  let ?E = "scalesFrom config start ?S"
  have dc: "dropConjunctions config (slice tokens a b) = slice tokens a b" for a b
    using free set_slice [of tokens a b] by (intro dropConjunctions_free) blast
  have dcS: "dropConjunctions config ?S = ?S" by (rule dc)
  show ?case
  proof (cases "stop \<le> start")
    case True
    then have "?S = []" by (simp add: slice_def)
    then have "parseIntegerSpec config ?S = 0"
      by (subst parseIntegerSpec.simps) (simp add: dropConjunctions_def findHighestScale_def)
    then show ?thesis using True by (simp add: WithScales_empty)
  next
    case False
    then have lt: "start < stop" by simp
    have lenS: "length ?S = stop - start" using less.prems(1) by (rule length_slice)
    have range: "\<forall>e\<in>set ?E. start \<le> fst e \<and> fst e < stop"
      using scalesFrom_index [of _ config start ?S] lenS lt by auto
    have fh: "findHighestInScales start stop sps (length A) (length A + length ?E)
                = pickHighest (length A) ?E None"
      unfolding findHighestInScales_def less.prems(2) using range by (rule fold_highest_pick)
    have rel: "related config start ?S (length A) (pickHighest (length A) ?E None)
                 (findHighestScale config ?S)"
      by (rule related_find)
    show ?thesis
    proof (cases "findHighestScale config ?S")
      case None
      with rel have "pickHighest (length A) ?E None = None" by (simp add: related_def)
      with fh have "parseIntegerTokensWithScales config tokens start stop sps (length A)
                      (length A + length ?E) = sumRange config tokens start stop"
        using lt by (simp add: WithScales_none)
      moreover have "parseIntegerSpec config ?S = sum_list (map (wordValue config) ?S)"
        using None spec_none [of config ?S] dcS by simp
      ultimately show ?thesis using less.prems(1) by (simp add: sumRange_slice)
    next
      case (Some r)
      obtain i v t where r: "r = (i, v, t)" by (cases r) auto
      define E1 where "E1 = scalesFrom config start (take i ?S)"
      define h where "h = start + i"
      define E2 where "E2 = scalesFrom config (Suc h) (drop (Suc i) ?S)"
      from rel Some r have
        pick: "pickHighest (length A) ?E None = Some (h, v, t, length A + length E1)"
        and iS: "i < length ?S" and ti: "?S ! i = t"
        and tv: "mapGet (wordToNumber config) t = Some v" "v \<in> scaleWords config"
        by (auto simp: related_def E1_def h_def)
      have hstop: "h < stop" using iS lenS by (simp add: h_def)
      have hstart: "start \<le> h" by (simp add: h_def)
      have Ssplit: "?S = take i ?S @ [t] @ drop (Suc i) ?S"
        using iS ti id_take_nth_drop [of i "slice tokens start stop"] by simp
      have "scalesFrom config start (take i ?S @ [t] @ drop (Suc i) ?S)
              = E1 @ [(h, v, t)] @ E2"
        using iS tv
        by (simp add: scalesFrom_append E1_def E2_def h_def scaleEntry_def min_def)
      with Ssplit have Esplit: "?E = E1 @ [(h, v, t)] @ E2" by simp
      have sl_left: "slice tokens start h = take i ?S"
        using hstop slice_left [of h stop tokens start] by (simp add: h_def)
      have sl_right: "slice tokens (Suc h) stop = drop (Suc i) ?S"
        using slice_right [of start "Suc h" tokens stop] by (simp add: h_def)
      have L: "parseIntegerTokensWithScales config tokens start h sps (length A)
                 (length A + length E1) = parseIntegerSpec config (take i ?S)"
      proof -
        have "parseIntegerTokensWithScales config tokens start h sps (length A)
                (length A + length (scalesFrom config start (slice tokens start h)))
              = parseIntegerSpec config (slice tokens start h)"
        proof (rule less.hyps)
          show "h - start < stop - start" using hstop hstart by simp
          show "h \<le> length tokens" using hstop less.prems(1) by simp
          show "sps = A @ scalesFrom config start (slice tokens start h) @ ([(h, v, t)] @ E2 @ B)"
            using less.prems(2) Esplit by (simp add: sl_left E1_def)
        qed
        then show ?thesis by (simp add: sl_left E1_def)
      qed
      have R: "parseIntegerTokensWithScales config tokens (Suc h) stop sps
                 (Suc (length A + length E1)) (length A + length ?E)
               = parseIntegerSpec config (drop (Suc i) ?S)"
      proof -
        have "parseIntegerTokensWithScales config tokens (Suc h) stop sps
                (length (A @ E1 @ [(h, v, t)]))
                (length (A @ E1 @ [(h, v, t)])
                   + length (scalesFrom config (Suc h) (slice tokens (Suc h) stop)))
              = parseIntegerSpec config (slice tokens (Suc h) stop)"
        proof (rule less.hyps)
          show "stop - Suc h < stop - start" using hstop hstart by simp
          show "stop \<le> length tokens" by (rule less.prems(1))
          show "sps = (A @ E1 @ [(h, v, t)])
                        @ scalesFrom config (Suc h) (slice tokens (Suc h) stop) @ B"
            using less.prems(2) Esplit by (simp add: sl_right E2_def)
        qed
        then show ?thesis using Esplit by (simp add: sl_right E2_def add.assoc)
      qed
      have c1: "start < h \<longleftrightarrow> take i ?S \<noteq> []" using iS by (auto simp: h_def)
      have c3: "stop - (h + 1) = length (drop (Suc i) ?S)" using lenS by (simp add: h_def)
      have c2: "h + 1 < stop \<longleftrightarrow> drop (Suc i) ?S \<noteq> []" using lenS by (auto simp: h_def)
      have c4: "tokens ! (h + 1) = hd (drop (Suc i) ?S)" if "h + 1 < stop"
      proof -
        have "hd (drop (Suc i) ?S) = ?S ! Suc i"
          using that lenS by (simp add: hd_drop_conv_nth h_def)
        also have "\<dots> = tokens ! (start + Suc i)"
          using that less.prems(1) by (intro slice_nth) (simp_all add: h_def)
        finally show ?thesis by (simp add: h_def)
      qed
      have lhs: "parseIntegerTokensWithScales config tokens start stop sps (length A)
                   (length A + length ?E)
         = (if h > start
            then (let leftValue = parseIntegerSpec config (take i ?S)
                  in if leftValue = 0 then 1 else leftValue)
            else if t \<in> impliedDualWords config then 2 else 1) * v
           + (if h + 1 < stop
              then (if usesPostfixOne config \<and> \<not> h > start \<and> stop - (h + 1) = 1
                       \<and> tokens ! (h + 1) \<in> oneWords config
                    then (if \<not> isScaleWord config (tokens ! (h + 1)) then 0
                          else parseIntegerSpec config (drop (Suc i) ?S))
                    else parseIntegerSpec config (drop (Suc i) ?S))
              else 0)"
        using WithScales_some [OF lt, of sps "length A" "length A + length ?E" h v t
                                 "length A + length E1" config tokens] fh pick L R
        by simp
      have rhs: "parseIntegerSpec config ?S
         = (if take i ?S \<noteq> []
            then (let coefficient = parseIntegerSpec config (take i ?S)
                  in if coefficient = 0 then 1 else coefficient)
            else if t \<in> impliedDualWords config then 2 else 1) * v
           + (if drop (i + 1) ?S = [] then 0
              else if usesPostfixOne config \<and> take i ?S = []
                      \<and> length (drop (i + 1) ?S) = 1
                      \<and> hd (drop (i + 1) ?S) \<in> oneWords config
                      \<and> \<not> isScaleWord config (hd (drop (i + 1) ?S))
              then 0
              else parseIntegerSpec config (drop (i + 1) ?S))"
        using spec_some [of config ?S i v t] Some r dcS by simp
      show ?thesis
      proof (cases "h + 1 < stop")
        case True
        with c2 have ne: "drop (Suc i) ?S \<noteq> []" by simp
        show ?thesis
          unfolding lhs rhs using True ne c1 c3 c4 [OF True] by (auto simp: Let_def)
      next
        case False
        with c2 have e: "drop (Suc i) ?S = []" by simp
        show ?thesis
          unfolding lhs rhs using False e c1 by (auto simp: Let_def)
      qed
    qed
  qed
qed


lemma highest_fold_pos:
  "fold (\<lambda>i. highestStep start stop i (f i)) js best = Some (h, v, t, p) \<Longrightarrow>
   (\<forall>h' v' t' p'. best = Some (h', v', t', p') \<longrightarrow> p' \<in> P) \<Longrightarrow> set js \<subseteq> P \<Longrightarrow> p \<in> P"
proof (induction js arbitrary: best)
  case Nil
  then show ?case by simp
next
  case (Cons j js)
  have "\<forall>h' v' t' p'. highestStep start stop j (f j) best = Some (h', v', t', p') \<longrightarrow> p' \<in> P"
    using Cons.prems(2,3) by (auto simp: highestStep_def split: prod.splits if_splits)
  with Cons.IH [of "highestStep start stop j (f j) best"] Cons.prems(1,3)
  show ?case by simp
qed

lemma findHighestInScales_pos:
  "findHighestInScales start stop sps ss se = Some (h, v, t, p) \<Longrightarrow> ss \<le> p \<and> p < se"
proof -
  assume "findHighestInScales start stop sps ss se = Some (h, v, t, p)"
  then have "p \<in> {ss..<se}"
    unfolding findHighestInScales_def by (rule highest_fold_pos) simp_all
  then show ?thesis by simp
qed

lemma Parallel_empty:
  "stop \<le> start \<Longrightarrow>
   parseWithParallelScales config tokens start stop idxs vs ts ss se = 0"
  by (subst parseWithParallelScales.simps) simp

lemma Parallel_none:
  "start < stop \<Longrightarrow> findHighestParallel start stop idxs vs ts ss se = None \<Longrightarrow>
   parseWithParallelScales config tokens start stop idxs vs ts ss se
     = sumRange config tokens start stop"
  by (subst parseWithParallelScales.simps) simp

lemma Parallel_some:
  "start < stop \<Longrightarrow> findHighestParallel start stop idxs vs ts ss se = Some (h, v, t, p) \<Longrightarrow>
   parseWithParallelScales config tokens start stop idxs vs ts ss se
     = (if h > start
        then (let leftValue = parseWithParallelScales config tokens start h idxs vs ts ss p
              in if leftValue = 0 then 1 else leftValue)
        else if t \<in> impliedDualWords config then 2 else 1) * v
       + (if h + 1 < stop
          then (if usesPostfixOne config \<and> \<not> h > start \<and> stop - (h + 1) = 1
                   \<and> tokens ! (h + 1) \<in> oneWords config
                then (if \<not> isScaleWord config (tokens ! (h + 1)) then 0
                      else parseWithParallelScales config tokens (h + 1) stop idxs vs ts (p + 1) se)
                else parseWithParallelScales config tokens (h + 1) stop idxs vs ts (p + 1) se)
          else 0)"
  by (subst parseWithParallelScales.simps) simp

lemma findHighestParallel_maps:
  "se \<le> length sps \<Longrightarrow>
   findHighestParallel start stop (map fst sps) (map (\<lambda>e. fst (snd e)) sps)
       (map (\<lambda>e. snd (snd e)) sps) ss se
     = findHighestInScales start stop sps ss se"
  unfolding findHighestParallel_def findHighestInScales_def
  by (rule fold_cong) auto

lemma Parallel_WithScales:
  "se \<le> length sps \<Longrightarrow>
   parseWithParallelScales config tokens start stop (map fst sps) (map (\<lambda>e. fst (snd e)) sps)
       (map (\<lambda>e. snd (snd e)) sps) ss se
     = parseIntegerTokensWithScales config tokens start stop sps ss se"
proof (induction "stop - start" arbitrary: start stop ss se rule: less_induct)
  case less
  let ?is = "map fst sps" and ?vs = "map (\<lambda>e. fst (snd e)) sps" and ?ts = "map (\<lambda>e. snd (snd e)) sps"
  show ?case
  proof (cases "stop \<le> start")
    case True
    then show ?thesis by (simp add: Parallel_empty WithScales_empty)
  next
    case False
    then have lt: "start < stop" by simp
    have fh: "findHighestParallel start stop ?is ?vs ?ts ss se
                = findHighestInScales start stop sps ss se"
      using less.prems by (rule findHighestParallel_maps)
    show ?thesis
    proof (cases "findHighestInScales start stop sps ss se")
      case None
      with fh lt show ?thesis by (simp add: Parallel_none WithScales_none)
    next
      case (Some r)
      obtain h v t p where r: "r = (h, v, t, p)" by (cases r) auto
      from Some r have f1: "findHighestInScales start stop sps ss se = Some (h, v, t, p)" by simp
      with fh have f2: "findHighestParallel start stop ?is ?vs ?ts ss se = Some (h, v, t, p)"
        by simp
      from f1 have rng: "start \<le> h \<and> h < stop" by (rule findHighestInScales_range)
      from f1 have pos: "ss \<le> p \<and> p < se" by (rule findHighestInScales_pos)
      have L: "parseWithParallelScales config tokens start h ?is ?vs ?ts ss p
                 = parseIntegerTokensWithScales config tokens start h sps ss p"
        using rng pos less.prems by (intro less.hyps) auto
      have R: "parseWithParallelScales config tokens (h + 1) stop ?is ?vs ?ts (p + 1) se
                 = parseIntegerTokensWithScales config tokens (h + 1) stop sps (p + 1) se"
        using rng pos less.prems by (intro less.hyps) auto
      show ?thesis
        unfolding Parallel_some [OF lt f2] WithScales_some [OF lt f1] L R by (rule refl)
    qed
  qed
qed

lemma dropConjunctions_idem:
  "dropConjunctions config (dropConjunctions config xs) = dropConjunctions config xs"
  by (simp add: dropConjunctions_def)

lemma spec_dropConjunctions:
  "parseIntegerSpec config (dropConjunctions config tokens) = parseIntegerSpec config tokens"
  by (rule trans [OF parseIntegerSpec.simps], unfold dropConjunctions_idem,
      rule parseIntegerSpec.simps [symmetric])

lemma spec_Nil: "parseIntegerSpec config [] = 0"
  by (subst parseIntegerSpec.simps) (simp add: dropConjunctions_def findHighestScale_def)

lemma no_scales_no_highest:
  "scalesFrom config k S = [] \<Longrightarrow> findHighestScale config S = None"
  using related_find [of config k S 0] by (simp add: related_def)

lemma scanStep_pair:
  "scanStep config t (n, sps)
     = (if t \<in> andWordsSet config then (n, sps) else (Suc n, sps @ scaleEntry config n t))"
  by (simp add: scanStep_def scaleEntry_def split: option.splits)

lemma scan_fold:
  "fold (scanStep config) tokens (n, sps)
     = (n + length (dropConjunctions config tokens),
        sps @ scalesFrom config n (dropConjunctions config tokens))"
proof (induction tokens arbitrary: n sps)
  case Nil
  then show ?case by (simp add: dropConjunctions_def)
next
  case (Cons t ts)
  show ?case
  proof (cases "t \<in> andWordsSet config")
    case True
    then show ?thesis
      using Cons.IH [of n sps] by (simp add: scanStep_pair dropConjunctions_def)
  next
    case False
    then show ?thesis
      using Cons.IH [of "Suc n" "sps @ scaleEntry config n t"]
      by (simp add: scanStep_pair dropConjunctions_def)
  qed
qed



lemma sumSkippingAnd_eq:
  "sumSkippingAnd config tokens
     = sum_list (map (wordValue config) (dropConjunctions config tokens))"
proof -
  have "fold (\<lambda>token acc. if token \<in> andWordsSet config then acc else addWord config token acc)
          tokens acc
        = acc + sum_list (map (wordValue config) (dropConjunctions config tokens))" for acc
    by (induction tokens arbitrary: acc)
       (auto simp: dropConjunctions_def addWord_def wordValue_def split: option.splits)
  then show ?thesis by (simp add: sumSkippingAnd_def)
qed

lemma slice_Cons:
  "a < b \<Longrightarrow> b \<le> length xs \<Longrightarrow> slice xs a b = xs ! a # slice xs (Suc a) b"
proof -
  assume a: "a < b" "b \<le> length xs"
  then have "drop a xs = xs ! a # drop (Suc a) xs" by (simp add: Cons_nth_drop_Suc)
  moreover from a obtain n where "b - a = Suc n" "b - Suc a = n"
    by (metis Suc_diff_Suc)
  ultimately show ?thesis by (simp add: slice_def)
qed

lemma parallel_fold:
  "b \<le> length tokens \<Longrightarrow>
   fold (parallelStep config tokens) [a..<b] (idxs, vs, ts)
     = (idxs @ map fst (scalesFrom config a (slice tokens a b)),
        vs @ map (\<lambda>e. fst (snd e)) (scalesFrom config a (slice tokens a b)),
        ts @ map (\<lambda>e. snd (snd e)) (scalesFrom config a (slice tokens a b)))"
proof (induction "b - a" arbitrary: a idxs vs ts)
  case 0
  then show ?case by (simp add: slice_def)
next
  case (Suc n)
  then have ab: "a < b" by simp
  have upt: "[a..<b] = a # [Suc a..<b]" using ab by (simp add: upt_conv_Cons)
  have sl: "slice tokens a b = tokens ! a # slice tokens (Suc a) b"
    using ab Suc.prems by (rule slice_Cons)
  have n: "n = b - Suc a" using Suc.hyps(2) by simp
  show ?case
    unfolding upt sl fold_simps o_apply
    by (cases "scaleEntry config a (tokens ! a) = []")
       (auto simp: parallelStep_def scaleEntry_def Suc.hyps(1) [OF n Suc.prems]
             split: option.splits if_splits)
qed

lemma slice_all: "slice xs 0 (length xs) = xs"
  by (simp add: slice_def)

theorem parseIntegerTokens_spec:
  "parseIntegerTokens config tokens = parseIntegerSpec config tokens"
proof (cases "tokens = []")
  case True
  then show ?thesis by (simp add: parseIntegerTokens_def spec_Nil)
next
  case ne: False
  show ?thesis
  proof (cases "andWordsSet config = {}")
    case True
    let ?E = "scalesFrom config 0 tokens"
    have free: "\<forall>t\<in>set tokens. t \<notin> andWordsSet config" using True by simp
    have dc: "dropConjunctions config tokens = tokens"
      using free by (rule dropConjunctions_free)
    have pf: "fold (parallelStep config tokens) [0..<length tokens] ([], [], [])
                = (map fst ?E, map (\<lambda>e. fst (snd e)) ?E, map (\<lambda>e. snd (snd e)) ?E)"
      using parallel_fold [of "length tokens" tokens config 0 "[]" "[]" "[]"]
      by (simp add: slice_all)
    show ?thesis
    proof (cases "?E = []")
      case E: True
      then have "findHighestScale config tokens = None" by (rule no_scales_no_highest)
      then have "parseIntegerSpec config tokens = sum_list (map (wordValue config) tokens)"
        using spec_none [of config tokens] dc by simp
      moreover have "parseIntegerTokens config tokens = sumRange config tokens 0 (length tokens)"
        using ne True E by (simp add: parseIntegerTokens_def parseIntegerTokensNoAnd_def pf)
      ultimately show ?thesis by (simp add: sumRange_slice slice_all)
    next
      case E: False
      have "parseIntegerTokens config tokens
              = parseWithParallelScales config tokens 0 (length tokens)
                  (map fst ?E) (map (\<lambda>e. fst (snd e)) ?E) (map (\<lambda>e. snd (snd e)) ?E)
                  0 (length ?E)"
        using ne True E by (simp add: parseIntegerTokens_def parseIntegerTokensNoAnd_def pf)
      also have "\<dots> = parseIntegerTokensWithScales config tokens 0 (length tokens) ?E
                         0 (length ?E)"
        by (rule Parallel_WithScales) simp
      also have "\<dots> = parseIntegerSpec config tokens"
        using WithScales_spec [OF free, of "length tokens" ?E "[]" 0 "[]"]
        by (simp add: slice_all)
      finally show ?thesis .
    qed
  next
    case False
    let ?F = "dropConjunctions config tokens"
    let ?E = "scalesFrom config 0 ?F"
    have free: "\<forall>t\<in>set ?F. t \<notin> andWordsSet config" by (simp add: dropConjunctions_def)
    have sf: "fold (scanStep config) tokens (0, []) = (length ?F, ?E)"
      by (simp add: scan_fold)
    have filt: "filter (\<lambda>token. token \<notin> andWordsSet config) tokens = ?F"
      by (simp add: dropConjunctions_def)
    show ?thesis
    proof (cases "?F = []")
      case F: True
      then have "parseIntegerSpec config ?F = 0" by (simp add: spec_Nil)
      then have "parseIntegerSpec config tokens = 0" by (simp add: spec_dropConjunctions)
      then show ?thesis using ne False F by (simp add: parseIntegerTokens_def sf)
    next
      case F: False
      show ?thesis
      proof (cases "?E = []")
        case E: True
        then have "findHighestScale config ?F = None" by (rule no_scales_no_highest)
        then have "parseIntegerSpec config tokens = sum_list (map (wordValue config) ?F)"
          by (rule spec_none)
        then show ?thesis
          using ne False F E by (simp add: parseIntegerTokens_def sf sumSkippingAnd_eq)
      next
        case E: False
        have "parseIntegerTokens config tokens
                = parseIntegerTokensWithScales config ?F 0 (length ?F) ?E 0 (length ?E)"
          using ne False F E by (simp add: parseIntegerTokens_def sf filt)
        also have "\<dots> = parseIntegerSpec config ?F"
          using WithScales_spec [OF free, of "length ?F" ?E "[]" 0 "[]"]
          by (simp add: slice_all)
        finally show ?thesis by (simp add: spec_dropConjunctions)
      qed
    qed
  qed
qed



section \<open>Sample grammar descriptions\<close>

definition nw :: "int \<Rightarrow> string \<Rightarrow> NumberWordMap" where
  "nw n w = \<lparr> nwNumber = Num n, nwValue = Single w, singularValue = None \<rparr>"

text \<open>Modelled from the spec: an English grammar table (the English locale files are not
  under src/); its words are those of the English test file.\<close>

definition enLocale :: OriginalLocaleConfig where
  "enLocale =
     \<lparr> currency = \<lparr> currencyName = ''Australian Dollar'', currencyPlural = ''Australian Dollars'',
                     currencySingular = None,
                     fractionalUnit = \<lparr> unitName = ''Cent'', unitPlural = ''Cents'',
                                        unitSingular = None \<rparr> \<rparr>,
       texts = \<lparr> textAnd = ''And'', textMinus = ''Minus'', textOnly = ''Only'',
                 textPoint = ''Point'' \<rparr>,
       numberWordsMapping =
         [nw 1000000 ''Million'', nw 1000 ''Thousand'', nw 100 ''Hundred'',
          nw 60 ''Sixty'', nw 50 ''Fifty'', nw 30 ''Thirty'', nw 20 ''Twenty'',
          nw 10 ''Ten'', nw 6 ''Six'', nw 3 ''Three'', nw 2 ''Two'', nw 1 ''One'',
          nw 0 ''Zero''],
       exactWordsMapping = Some [nw 100 ''One Hundred''],
       ordinalWordsMapping = Some [nw 3 ''Third'', nw 2 ''Second'', nw 1 ''First''],
       ordinalExactWordsMapping = Some [nw 100 ''One Hundredth''],
       ordinalSuffixText = Some ''th'',
       splitWordText = None, pluralMark = None, pluralWords = None, pluralForms = None,
       trimWords = None \<rparr>"

definition en :: ToNumbersCore where
  "en = \<lparr> localeConfig = enLocale, converterOptions = Some DefaultConverterOptions \<rparr>"

definition enConfig :: ParserLocaleConfig where
  "enConfig = buildParserLocaleConfig enLocale False"

text \<open>Modelled from the spec: a grammar whose million word has one form for dual and
  plural (the implied dual the specification describes for Italian), and a thousand word
  with a distinct dual form.\<close>

definition itLocale :: OriginalLocaleConfig where
  "itLocale =
     \<lparr> currency = \<lparr> currencyName = ''Euro'', currencyPlural = ''Euro'', currencySingular = None,
                     fractionalUnit = \<lparr> unitName = ''Centesimo'', unitPlural = ''Centesimi'',
                                        unitSingular = None \<rparr> \<rparr>,
       texts = \<lparr> textAnd = ''E'', textMinus = ''Meno'', textOnly = [],
                 textPoint = ''Virgola'' \<rparr>,
       numberWordsMapping =
         [nw 1000000 ''Milione'', nw 1000 ''Mille'', nw 100 ''Cento'', nw 10 ''Dieci'',
          nw 2 ''Due'', nw 1 ''Uno'', nw 0 ''Zero''],
       exactWordsMapping = None, ordinalWordsMapping = None, ordinalExactWordsMapping = None,
       ordinalSuffixText = None, splitWordText = None, pluralMark = None, pluralWords = None,
       pluralForms =
         Some [(1000, \<lparr> dual = Some ''Duemila'', paucal = Some ''Mila'', plural = Some ''Mila'' \<rparr>),
               (1000000, \<lparr> dual = Some ''Milioni'', paucal = Some ''Milioni'',
                            plural = Some ''Milioni'' \<rparr>)],
       trimWords = None \<rparr>"

definition itConfig :: ParserLocaleConfig where
  "itConfig = buildParserLocaleConfig itLocale False"

text \<open>Modelled from the spec: a grammar with the exact phrase "hundred one" for 100 (the
  postfix one the specification describes for Swahili).\<close>

definition swLocale :: OriginalLocaleConfig where
  "swLocale =
     \<lparr> currency = \<lparr> currencyName = ''Shilingi'', currencyPlural = ''Shilingi'',
                     currencySingular = None,
                     fractionalUnit = \<lparr> unitName = ''Senti'', unitPlural = ''Senti'',
                                        unitSingular = None \<rparr> \<rparr>,
       texts = \<lparr> textAnd = ''Na'', textMinus = ''Hasi'', textOnly = [],
                 textPoint = ''Nukta'' \<rparr>,
       numberWordsMapping =
         [nw 1000 ''Elfu'', nw 100 ''Mia'', nw 10 ''Kumi'', nw 2 ''Mbili'', nw 1 ''Moja'',
          nw 0 ''Sifuri''],
       exactWordsMapping = Some [nw 100 ''Mia Moja''],
       ordinalWordsMapping = None, ordinalExactWordsMapping = None,
       ordinalSuffixText = None, splitWordText = None, pluralMark = None, pluralWords = None,
       pluralForms = None,
       trimWords = None \<rparr>"

definition swConfig :: ParserLocaleConfig where
  "swConfig = buildParserLocaleConfig swLocale False"

text \<open>The same grammar with one form for the dual and the plural of its thousand word.\<close>

definition swDualLocale :: OriginalLocaleConfig where
  "swDualLocale =
     swLocale \<lparr> pluralForms :=
       Some [(1000, \<lparr> dual = Some ''Elfu'', paucal = None, plural = Some ''Elfu'' \<rparr>)] \<rparr>"

definition swDualConfig :: ParserLocaleConfig where
  "swDualConfig = buildParserLocaleConfig swDualLocale False"

text \<open>The compiled sample grammars, evaluated once.\<close>

lemma enConfig_compiled:
  "enConfig =
     \<lparr>wordToNumber =
     [(''million'', 1000000), (''thousand'', 1000), (''hundred'', 100),
     (''sixty'', 60), (''fifty'', 50), (''thirty'', 30), (''twenty'', 20),
     (''ten'', 10), (''six'', 6), (''three'', 3), (''two'', 2),
     (''one'', 1), (''zero'', 0)],
     scaleWords = {100, 1000, 1000000}, impliedDualWords = {},
     oneWords = {''one''}, usesPostfixOne = False,
     parserTexts =
     \<lparr>textsAnd = [''and''], textsMinus = [''minus''],
     textsPoint = [''point''], textsOnly = [''only'']\<rparr>,
     currencyWords =
     \<lparr>mainUnit = [''australian dollar'', ''australian dollars''],
     fractionalUnitWords = [''cent'', ''cents'']\<rparr>,
     caseSensitive = False, trimMode = False, splitWord = None,
     ordinalWordToNumber =
     [(''third'', 3), (''second'', 2), (''first'', 1),
     (''one hundredth'', 100)],
     ordinalSuffix = Some ''th'',
     sortedPhrases =
     [''thousand'', ''million'', ''hundred'', ''thirty'', ''twenty'',
     ''sixty'', ''fifty'', ''three'', ''zero'', ''ten'', ''six'', ''two'',
     ''one''],
     multiWordPhrases = [],
     specialWords =
     [''minus'', ''point'', ''and'', ''only'', ''australian dollar'',
     ''australian dollars'', ''cent'', ''cents'', ''third'', ''second'',
     ''first'', ''one hundredth''],
     sortedConcatenatedWords =
     [''australian dollars'', ''australian dollar'', ''one hundredth'',
     ''thousand'', ''million'', ''hundred'', ''thirty'', ''twenty'',
     ''second'', ''sixty'', ''fifty'', ''three'', ''minus'', ''point'',
     ''cents'', ''third'', ''first'', ''zero'', ''only'', ''cent'',
     ''ten'', ''six'', ''two'', ''one'', ''and''],
     andWordsSet = {''and''}, mainUnitSet = {},
     fractionalUnitSet = {''cent'', ''cents''},
     mainUnitMultiWord =
     [[''australian'', ''dollar''], [''australian'', ''dollars'']],
     fractionalUnitMultiWord = []\<rparr>"
  by code_simp

declare enConfig_compiled [code]

lemma itConfig_compiled:
  "itConfig =
     \<lparr>wordToNumber =
     [(''milione'', 1000000), (''mille'', 1000), (''cento'', 100),
     (''dieci'', 10), (''due'', 2), (''uno'', 1), (''zero'', 0),
     (''duemila'', 2000), (''mila'', 1000), (''milioni'', 1000000)],
     scaleWords = {2000, 100, 1000, 1000000},
     impliedDualWords = {''milioni''}, oneWords = {''uno''},
     usesPostfixOne = False,
     parserTexts =
     \<lparr>textsAnd = [''e''], textsMinus = [''meno''],
     textsPoint = [''virgola''], textsOnly = []\<rparr>,
     currencyWords =
     \<lparr>mainUnit = [''euro'', ''euro''],
     fractionalUnitWords = [''centesimo'', ''centesimi'']\<rparr>,
     caseSensitive = False, trimMode = False, splitWord = None,
     ordinalWordToNumber = [], ordinalSuffix = None,
     sortedPhrases =
     [''milione'', ''duemila'', ''milioni'', ''mille'', ''cento'',
     ''dieci'', ''zero'', ''mila'', ''due'', ''uno''],
     multiWordPhrases = [],
     specialWords =
     [''meno'', ''virgola'', ''e'', ''euro'', ''euro'', ''centesimo'',
     ''centesimi''],
     sortedConcatenatedWords =
     [''centesimo'', ''centesimi'', ''milione'', ''duemila'', ''milioni'',
     ''virgola'', ''mille'', ''cento'', ''dieci'', ''zero'', ''mila'',
     ''meno'', ''euro'', ''euro'', ''due'', ''uno'', ''e''],
     andWordsSet = {''e''}, mainUnitSet = {''euro''},
     fractionalUnitSet = {''centesimo'', ''centesimi''},
     mainUnitMultiWord = [], fractionalUnitMultiWord = []\<rparr>"
  by code_simp

declare itConfig_compiled [code]

lemma swConfig_compiled:
  "swConfig =
     \<lparr>wordToNumber =
     [(''elfu'', 1000), (''mia'', 100), (''kumi'', 10), (''mbili'', 2),
     (''moja'', 1), (''sifuri'', 0)],
     scaleWords = {100, 1000}, impliedDualWords = {}, oneWords = {''moja''},
     usesPostfixOne = True,
     parserTexts =
     \<lparr>textsAnd = [''na''], textsMinus = [''hasi''],
     textsPoint = [''nukta''], textsOnly = []\<rparr>,
     currencyWords =
     \<lparr>mainUnit = [''shilingi'', ''shilingi''],
     fractionalUnitWords = [''senti'', ''senti'']\<rparr>,
     caseSensitive = False, trimMode = False, splitWord = None,
     ordinalWordToNumber = [], ordinalSuffix = None,
     sortedPhrases =
     [''sifuri'', ''mbili'', ''elfu'', ''kumi'', ''moja'', ''mia''],
     multiWordPhrases = [],
     specialWords =
     [''hasi'', ''nukta'', ''na'', ''shilingi'', ''shilingi'', ''senti'',
     ''senti''],
     sortedConcatenatedWords =
     [''shilingi'', ''shilingi'', ''sifuri'', ''mbili'', ''nukta'',
     ''senti'', ''senti'', ''elfu'', ''kumi'', ''moja'', ''hasi'',
     ''mia'', ''na''],
     andWordsSet = {''na''}, mainUnitSet = {''shilingi''},
     fractionalUnitSet = {''senti''}, mainUnitMultiWord = [],
     fractionalUnitMultiWord = []\<rparr>"
  by code_simp

declare swConfig_compiled [code]

lemma swDualConfig_compiled:
  "swDualConfig =
     \<lparr>wordToNumber =
     [(''elfu'', 1000), (''mia'', 100), (''kumi'', 10), (''mbili'', 2),
     (''moja'', 1), (''sifuri'', 0)],
     scaleWords = {100, 1000}, impliedDualWords = {''elfu''},
     oneWords = {''moja''}, usesPostfixOne = True,
     parserTexts =
     \<lparr>textsAnd = [''na''], textsMinus = [''hasi''],
     textsPoint = [''nukta''], textsOnly = []\<rparr>,
     currencyWords =
     \<lparr>mainUnit = [''shilingi'', ''shilingi''],
     fractionalUnitWords = [''senti'', ''senti'']\<rparr>,
     caseSensitive = False, trimMode = False, splitWord = None,
     ordinalWordToNumber = [], ordinalSuffix = None,
     sortedPhrases =
     [''sifuri'', ''mbili'', ''elfu'', ''kumi'', ''moja'', ''mia''],
     multiWordPhrases = [],
     specialWords =
     [''hasi'', ''nukta'', ''na'', ''shilingi'', ''shilingi'', ''senti'',
     ''senti''],
     sortedConcatenatedWords =
     [''shilingi'', ''shilingi'', ''sifuri'', ''mbili'', ''nukta'',
     ''senti'', ''senti'', ''elfu'', ''kumi'', ''moja'', ''hasi'',
     ''mia'', ''na''],
     andWordsSet = {''na''}, mainUnitSet = {''shilingi''},
     fractionalUnitSet = {''senti''}, mainUnitMultiWord = [],
     fractionalUnitMultiWord = []\<rparr>"
  by code_simp

declare swDualConfig_compiled [code]

lemma getParserConfig_en: "getParserConfig en = enConfig"
  by (simp add: getParserConfig_def en_def enConfig_def)

section \<open>Claim C1: the integer algorithm\<close>









section \<open>Invariants of compiled grammars\<close>















section \<open>Parsing short phrases\<close>













section \<open>Claim C3: dual forms\<close>














section \<open>Claim C4: decimal fractions\<close>

declare floorLog10.simps [simp del]

















section \<open>Claim C5: currency amounts\<close>




declare findCurrencyUnitInRange.simps [simp del]










section \<open>Claim C6: a marker shared by conjunction and decimal point\<close>

text \<open>Modelled from the spec: a grammar whose conjunction marker and decimal-point marker
  are the same word (no such locale file is under src/).\<close>

definition sharedLocale :: OriginalLocaleConfig where
  "sharedLocale =
     \<lparr> currency = \<lparr> currencyName = ''Dollar'', currencyPlural = ''Dollars'',
                     currencySingular = None,
                     fractionalUnit = \<lparr> unitName = ''Cent'', unitPlural = ''Cents'',
                                        unitSingular = None \<rparr> \<rparr>,
       texts = \<lparr> textAnd = ''And'', textMinus = ''Minus'', textOnly = ''Only'',
                 textPoint = ''And'' \<rparr>,
       numberWordsMapping =
         [nw 100 ''Hundred'', nw 50 ''Fifty'', nw 30 ''Thirty'', nw 5 ''Five'', nw 2 ''Two'',
          nw 1 ''One'', nw 0 ''Zero''],
       exactWordsMapping = None, ordinalWordsMapping = None, ordinalExactWordsMapping = None,
       ordinalSuffixText = None, splitWordText = None, pluralMark = None, pluralWords = None,
       pluralForms = None, trimWords = None \<rparr>"

definition sharedConfig :: ParserLocaleConfig where
  "sharedConfig = buildParserLocaleConfig sharedLocale False"

definition shared :: ToNumbersCore where
  "shared = \<lparr> localeConfig = sharedLocale, converterOptions = Some DefaultConverterOptions \<rparr>"

lemma sharedConfig_compiled:
  "sharedConfig =
     \<lparr>wordToNumber =
        [(''hundred'', 100), (''fifty'', 50), (''thirty'', 30), (''five'', 5),
         (''two'', 2), (''one'', 1), (''zero'', 0)],
      scaleWords = {100}, impliedDualWords = {}, oneWords = {''one''},
      usesPostfixOne = False,
      parserTexts =
        \<lparr>textsAnd = [''and''], textsMinus = [''minus''],
           textsPoint = [''and''], textsOnly = [''only'']\<rparr>,
      currencyWords =
        \<lparr>mainUnit = [''dollar'', ''dollars''],
           fractionalUnitWords = [''cent'', ''cents'']\<rparr>,
      caseSensitive = False, trimMode = False, splitWord = None,
      ordinalWordToNumber = [], ordinalSuffix = None,
      sortedPhrases =
        [''hundred'', ''thirty'', ''fifty'', ''five'', ''zero'', ''two'',
         ''one''],
      multiWordPhrases = [],
      specialWords =
        [''minus'', ''and'', ''and'', ''only'', ''dollar'', ''dollars'',
         ''cent'', ''cents''],
      sortedConcatenatedWords =
        [''hundred'', ''dollars'', ''thirty'', ''dollar'', ''fifty'',
         ''minus'', ''cents'', ''five'', ''zero'', ''only'', ''cent'',
         ''two'', ''one'', ''and'', ''and''],
      andWordsSet = {''and''}, mainUnitSet = {''dollar'', ''dollars''},
      fractionalUnitSet = {''cent'', ''cents''}, mainUnitMultiWord = [],
      fractionalUnitMultiWord = []\<rparr>"
  by code_simp

declare sharedConfig_compiled [code]

lemma getParserConfig_shared: "getParserConfig shared = sharedConfig"
  by (simp add: getParserConfig_def shared_def sharedConfig_def)

lemma compiled_texts:
  "textsAnd (parserTexts (buildParserLocaleConfig d cs)) = markerList cs (textAnd (texts d))"
  "textsPoint (parserTexts (buildParserLocaleConfig d cs)) = markerList cs (textPoint (texts d))"
  "andWordsSet (buildParserLocaleConfig d cs) = set (markerList cs (textAnd (texts d)))"
  by (simp_all add: buildParserLocaleConfig_def Let_def)

lemma ambiguous_no_point:
  "ambiguousPoint config \<Longrightarrow> findPointIndexInRange tokens start stop config = None"
  by (simp add: findPointIndexInRange_def)

lemma ambiguous_number:
  assumes "ambiguousPoint config"
  shows "parseNumberFromTokens tokens config
           = (if tokens = [] then 0
              else if hd tokens \<in> set (textsMinus (parserTexts config))
              then - of_int (parseIntegerTokens config (drop 1 tokens))
              else of_int (parseIntegerTokens config tokens))"
  by (simp add: parseNumberFromTokens_def parseUnsigned_def ambiguous_no_point [OF assms])

lemma conjunctions_dropped:
  "parseIntegerTokens config (dropConjunctions config tokens) = parseIntegerTokens config tokens"
  by (simp add: parseIntegerTokens_spec spec_dropConjunctions)

text \<open>
  Claim C6: for every compiled grammar whose conjunction marker and decimal-point marker
  are the same (non-blank) text, no token range of a plain number has a decimal point: the
  whole phrase (after a leading negation word) is parsed as an integer, and the marker is
  a conjunction word, dropped by the integer parser. In currency parsing the marker after
  the main unit still separates main and fractional amounts.
\<close>

theorem ambiguous_marker:
  "(textAnd (texts d) = textPoint (texts d) \<and> normalizeWord (textAnd (texts d)) cs \<noteq> []
     \<longrightarrow> findPointIndexInRange tokens start stop (buildParserLocaleConfig d cs) = None
       \<and> parseNumberFromTokens tokens (buildParserLocaleConfig d cs)
           = (if tokens = [] then 0
              else if hd tokens \<in> set (textsMinus (parserTexts (buildParserLocaleConfig d cs)))
              then - of_int (parseIntegerTokens (buildParserLocaleConfig d cs) (drop 1 tokens))
              else of_int (parseIntegerTokens (buildParserLocaleConfig d cs) tokens))
       \<and> parseIntegerTokens (buildParserLocaleConfig d cs) tokens
           = parseIntegerTokens (buildParserLocaleConfig d cs)
               (filter (\<lambda>t. t \<noteq> normalizeWord (textAnd (texts d)) cs) tokens))
   \<and> convert shared (JSString ''two and five'')
        \<lparr> optCurrency = Absent, currencyOptions = Absent \<rparr> = Some (Inr 7)
   \<and> convert shared (JSString ''two dollars and five cents'')
        \<lparr> optCurrency = Present True, currencyOptions = Absent \<rparr> = Some (Inr (205 / 100))"
proof (intro conjI impI)
  let ?c = "buildParserLocaleConfig d cs"
  assume a: "textAnd (texts d) = textPoint (texts d)
               \<and> normalizeWord (textAnd (texts d)) cs \<noteq> []"
  then have ne: "textAnd (texts d) \<noteq> []" by (cases cs) (auto simp: normalizeWord_def trim_def toLowerCase_def)
  from a have "textAnd (texts d) = textPoint (texts d)" by (rule conjunct1)
  then have eq: "textPoint (texts d) = textAnd (texts d)" by (rule sym)
  from a have nb: "normalizeWord (textAnd (texts d)) cs \<noteq> []" by (rule conjunct2)
  have amb: "ambiguousPoint ?c"
    using ne nb by (simp add: ambiguousPoint_def compiled_texts markerList_def eq)
  show "findPointIndexInRange tokens start stop ?c = None"
    using amb by (rule ambiguous_no_point)
  show "parseNumberFromTokens tokens ?c
           = (if tokens = [] then 0
              else if hd tokens \<in> set (textsMinus (parserTexts ?c))
              then - of_int (parseIntegerTokens ?c (drop 1 tokens))
              else of_int (parseIntegerTokens ?c tokens))"
    using amb by (rule ambiguous_number)
  have "dropConjunctions ?c tokens
          = filter (\<lambda>t. t \<noteq> normalizeWord (textAnd (texts d)) cs) tokens"
    using ne by (simp add: dropConjunctions_def compiled_texts markerList_def)
  then show "parseIntegerTokens ?c tokens
           = parseIntegerTokens ?c
               (filter (\<lambda>t. t \<noteq> normalizeWord (textAnd (texts d)) cs) tokens)"
    using conjunctions_dropped [of ?c tokens] by simp
next
  show "convert shared (JSString ''two and five'')
        \<lparr> optCurrency = Absent, currencyOptions = Absent \<rparr> = Some (Inr 7)"
    unfolding convert_def parseCurrency_def getParserConfig_shared by code_simp
next
  show "convert shared (JSString ''two dollars and five cents'')
        \<lparr> optCurrency = Present True, currencyOptions = Absent \<rparr> = Some (Inr (205 / 100))"
    unfolding convert_def parseCurrency_def getParserConfig_shared by code_simp
qed

theorem ambiguous_marker_witness:
  "findPointIndexInRange [''two'', ''and'', ''five''] 0 3 sharedConfig = None
   \<and> parseNumberFromTokens [''two'', ''and'', ''five''] sharedConfig = 7
   \<and> parseIntegerTokens sharedConfig [''two'', ''and'', ''five'']
       = parseIntegerTokens sharedConfig [''two'', ''five'']"
proof -
  note T = ambiguous_marker [of sharedLocale False "[''two'', ''and'', ''five'']" 0 3,
                             folded sharedConfig_def]
  have h: "textAnd (texts sharedLocale) = textPoint (texts sharedLocale)"
    "normalizeWord (textAnd (texts sharedLocale)) False = ''and''"
    by (simp add: sharedLocale_def, code_simp)
  have k: "hd [''two'', ''and'', ''five''] \<notin> set (textsMinus (parserTexts sharedConfig))"
    "parseIntegerTokens sharedConfig [''two'', ''and'', ''five''] = 7"
    by code_simp+
  have a: "findPointIndexInRange [''two'', ''and'', ''five''] 0 3 sharedConfig = None"
    using T h by simp
  have b: "parseNumberFromTokens [''two'', ''and'', ''five''] sharedConfig = 7"
    using T h k by simp
  have c: "parseIntegerTokens sharedConfig [''two'', ''and'', ''five'']
       = parseIntegerTokens sharedConfig [''two'', ''five'']"
    using T h by simp
  from a b c show ?thesis by blast
qed

section \<open>Claim C10: the sign flag\<close>

lemma plain_parse_sign:
  assumes "\<not> currencyMode (mergeOptions this options)"
    and "parse this input options = Some (Inr r)"
  shows "isNegative r = (resultValue r < 0) \<and> \<not> isCurrency r"
proof (cases input)
  case (JSString ws)
  show ?thesis
  proof (cases "getTokens (getParserConfig this) ws")
    case None
    with assms JSString show ?thesis by (simp add: parse_def split: if_splits)
  next
    case (Some tokens)
    show ?thesis
    proof (cases "parseOrdinalFromTokens tokens (getParserConfig this)")
      case None
      with assms JSString Some show ?thesis
        by (auto simp: parse_def plainResult_def split: if_splits)
    next
      case (Some ordinalResult)
      with assms JSString \<open>getTokens (getParserConfig this) ws = Some tokens\<close> show ?thesis
        by (auto simp: parse_def plainResult_def split: if_splits)
    qed
  qed
qed (use assms in \<open>simp_all add: parse_def\<close>)

lemma currency_parse_sign:
  assumes "currencyMode (mergeOptions this options)"
    and "parse this (JSString ws) options = Some (Inr r)"
    and "getTokens (getParserConfig this) ws = Some tokens"
  shows "isNegative r
           = (tokens \<noteq> [] \<and> hd tokens \<in> set (textsMinus (parserTexts (getParserConfig this))))"
  using assms
  by (auto simp: parse_def parseCurrency_def parseCurrencyTokens_def Let_def
        zeroCurrencyResult_def split: if_splits)

lemma negated_zero:
  assumes "\<not> currencyMode (mergeOptions this options)" "isValidInput (JSString ws)"
    and "getTokens (getParserConfig this) ws = Some (m # rest)"
    and "m \<in> set (textsMinus (parserTexts (getParserConfig this)))"
    and "parseOrdinalFromTokens (m # rest) (getParserConfig this) = None"
    and "parseUnsigned (getParserConfig this) rest = 0"
  shows "parse this (JSString ws) options
           = Some (Inr \<lparr> resultValue = 0, isCurrency = False, isNegative = False,
                         isOrdinal = None, currencyInfo = None \<rparr>)"
  using assms by (simp add: parse_def parseNumberFromTokens_def plainResult_def)

text \<open>
  Claim C10: every non-currency parse call that returns a result has
  isNegative = (value < 0); a negation word followed by words that parse to zero gives
  value 0 with isNegative false. A currency parse sets isNegative when the first token is
  a negation word, whatever the value.
\<close>

theorem isNegative_follows_value:
  "(\<not> currencyMode (mergeOptions this options) \<and> parse this input options = Some (Inr r)
      \<longrightarrow> isNegative r = (resultValue r < 0) \<and> \<not> isCurrency r)
   \<and> (\<not> currencyMode (mergeOptions this options) \<and> isValidInput (JSString ws)
       \<and> getTokens (getParserConfig this) ws = Some (m # rest)
       \<and> m \<in> set (textsMinus (parserTexts (getParserConfig this)))
       \<and> parseOrdinalFromTokens (m # rest) (getParserConfig this) = None
       \<and> parseUnsigned (getParserConfig this) rest = 0
      \<longrightarrow> parse this (JSString ws) options
            = Some (Inr \<lparr> resultValue = 0, isCurrency = False, isNegative = False,
                          isOrdinal = None, currencyInfo = None \<rparr>))
   \<and> (currencyMode (mergeOptions this options')
       \<and> parse this (JSString ws') options' = Some (Inr r')
       \<and> getTokens (getParserConfig this) ws' = Some tokens
      \<longrightarrow> isNegative r'
            = (tokens \<noteq> []
               \<and> hd tokens \<in> set (textsMinus (parserTexts (getParserConfig this)))))
   \<and> parse en (JSString ''minus zero'') \<lparr> optCurrency = Absent, currencyOptions = Absent \<rparr>
       = Some (Inr \<lparr> resultValue = 0, isCurrency = False, isNegative = False,
                     isOrdinal = None, currencyInfo = None \<rparr>)
   \<and> parse en (JSString ''minus zero australian dollars'')
        \<lparr> optCurrency = Present True, currencyOptions = Absent \<rparr>
       = Some (Inr \<lparr> resultValue = 0, isCurrency = True, isNegative = True,
                     isOrdinal = None,
                     currencyInfo = Some \<lparr> mainAmount = 0, fractionalAmount = 0 \<rparr> \<rparr>)"
proof (intro conjI impI)
  assume "\<not> currencyMode (mergeOptions this options)
            \<and> parse this input options = Some (Inr r)"
  then have "isNegative r = (resultValue r < 0) \<and> \<not> isCurrency r"
    by (intro plain_parse_sign [of this options input]) auto
  then show "isNegative r = (resultValue r < 0)" "\<not> isCurrency r" by auto
next
  assume "\<not> currencyMode (mergeOptions this options) \<and> isValidInput (JSString ws)
       \<and> getTokens (getParserConfig this) ws = Some (m # rest)
       \<and> m \<in> set (textsMinus (parserTexts (getParserConfig this)))
       \<and> parseOrdinalFromTokens (m # rest) (getParserConfig this) = None
       \<and> parseUnsigned (getParserConfig this) rest = 0"
  then show "parse this (JSString ws) options
            = Some (Inr \<lparr> resultValue = 0, isCurrency = False, isNegative = False,
                          isOrdinal = None, currencyInfo = None \<rparr>)"
    by (intro negated_zero) auto
next
  assume "currencyMode (mergeOptions this options')
       \<and> parse this (JSString ws') options' = Some (Inr r')
       \<and> getTokens (getParserConfig this) ws' = Some tokens"
  then show "isNegative r'
            = (tokens \<noteq> []
               \<and> hd tokens \<in> set (textsMinus (parserTexts (getParserConfig this))))"
    by (intro currency_parse_sign [of this options' ws']) auto
next
  show "parse en (JSString ''minus zero'') \<lparr> optCurrency = Absent, currencyOptions = Absent \<rparr>
       = Some (Inr \<lparr> resultValue = 0, isCurrency = False, isNegative = False,
                     isOrdinal = None, currencyInfo = None \<rparr>)"
    unfolding parse_def parseCurrency_def getParserConfig_en by code_simp
next
  show "parse en (JSString ''minus zero australian dollars'')
        \<lparr> optCurrency = Present True, currencyOptions = Absent \<rparr>
       = Some (Inr \<lparr> resultValue = 0, isCurrency = True, isNegative = True,
                     isOrdinal = None,
                     currencyInfo = Some \<lparr> mainAmount = 0, fractionalAmount = 0 \<rparr> \<rparr>)"
    unfolding parse_def parseCurrency_def getParserConfig_en by code_simp
qed

theorem isNegative_follows_value_witness:
  "isNegative (plainResult (- 2) None) = (resultValue (plainResult (- 2) None) < 0)
   \<and> parse en (JSString ''minus two'') \<lparr> optCurrency = Absent, currencyOptions = Absent \<rparr>
       = Some (Inr (plainResult (- 2) None))
   \<and> parse en (JSString ''minus  zero'') \<lparr> optCurrency = Absent, currencyOptions = Absent \<rparr>
       = Some (Inr \<lparr> resultValue = 0, isCurrency = False, isNegative = False,
                     isOrdinal = None, currencyInfo = None \<rparr>)
   \<and> isNegative (parseCurrencyTokens enConfig
                   \<lparr> optCurrency = Present True, currencyOptions = Absent \<rparr>
                   [''minus'', ''zero'', ''cents''])"
proof -
  let ?n = "\<lparr> optCurrency = Absent, currencyOptions = Absent \<rparr>"
  let ?c = "\<lparr> optCurrency = Present True, currencyOptions = Absent \<rparr>"
  note T = isNegative_follows_value
             [of en ?n "JSString ''minus two''" "plainResult (- 2) None" "''minus  zero''"
                 "''minus''" "[''zero'']" ?c "''minus zero cents''"
                 "parseCurrencyTokens enConfig ?c [''minus'', ''zero'', ''cents'']"
                 "[''minus'', ''zero'', ''cents'']",
              unfolded getParserConfig_en]
  have m: "\<not> currencyMode (mergeOptions en ?n)" "currencyMode (mergeOptions en ?c)"
    by code_simp+
  have p: "parse en (JSString ''minus two'') ?n = Some (Inr (plainResult (- 2) None))"
    unfolding parse_def parseCurrency_def getParserConfig_en by code_simp
  have q: "isValidInput (JSString ''minus  zero'')"
    "getTokens enConfig ''minus  zero'' = Some (''minus'' # [''zero''])"
    "''minus'' \<in> set (textsMinus (parserTexts enConfig))"
    "parseOrdinalFromTokens (''minus'' # [''zero'']) enConfig = None"
    "parseUnsigned enConfig [''zero''] = 0"
    by code_simp+
  have c: "parse en (JSString ''minus zero cents'') ?c
             = Some (Inr (parseCurrencyTokens enConfig ?c [''minus'', ''zero'', ''cents'']))"
    "getTokens enConfig ''minus zero cents'' = Some [''minus'', ''zero'', ''cents'']"
    "hd [''minus'', ''zero'', ''cents''] \<in> set (textsMinus (parserTexts enConfig))"
    unfolding parse_def parseCurrency_def getParserConfig_en by code_simp+
  have a: "isNegative (plainResult (- 2) None) = (resultValue (plainResult (- 2) None) < 0)"
    using T m(1) p by blast
  have b: "parse en (JSString ''minus  zero'') ?n
             = Some (Inr \<lparr> resultValue = 0, isCurrency = False, isNegative = False,
                           isOrdinal = None, currencyInfo = None \<rparr>)"
    using T m(1) q by blast
  have d: "isNegative (parseCurrencyTokens enConfig ?c [''minus'', ''zero'', ''cents''])"
    using T m(2) c by simp
  from a p b d show ?thesis by blast
qed

section \<open>Claim C9: invalid input and unrecognized words\<close>


declare concatenatedLoop.simps [simp del]



















end
